theory Spec2Isabelle
  imports Complex_Main "HOL-Library.FSet" "HOL-Library.Log_Nat" "HOL-Library.Code_Target_Numeral"
begin

section \<open>The categorical rate tree (cat_nodes.h)\<close>

text \<open>
  The C++ nests \<open>TreeNode<TreeNode<... LeafNode<ElemT> ...>>\<close> by template recursion.
  Here one recursive datatype covers every nesting depth. A leaf holds its cached total
  rate and its hash set of elements; an inner node holds its cached total rate, its
  element count and the vector of its sub-categories. Rates and totals are the C++
  doubles; a double is the real number it stands for, and every floating-point operation
  of the C++ is the exact operation followed by a rounding (see below).
\<close>

datatype 'e node =
    LeafNode (total_rate: real) (elems: "'e fset")
  | TreeNode (total_rate: real) (n_elems: int) (cats: "'e node list")

text \<open>
  The classifier that guides a nested tree: at an inner layer \<open>classify S elem\<close> is the
  bin of the element and \<open>get S bin\<close> is the classifier of that sub-category; the
  innermost \<open>get\<close> returns a \<open>double\<close>, the rate of one member of the leaf, which is
  \<open>LeafRate\<close> here. Both functions receive the state \<open>S\<close> (the network) by reference
  and only read it. Bins are vector indices, so they are naturals.
\<close>

datatype ('s, 'e) classifier =
    LeafRate real
  | Layer (classify: "'s \<Rightarrow> 'e \<Rightarrow> nat") (get: "'s \<Rightarrow> nat \<Rightarrow> ('s, 'e) classifier")

datatype error =
    Debug_check_failed string
  | Assert_failed string
  | Type_mismatch

subsection \<open>Double arithmetic\<close>

text \<open>
  The operations of the tree on doubles (\<open>total_rate += delta\<close>,
  \<open>num -= ...\<close>, \<open>genrand_real2() * total_rate\<close>) take the rounding as a parameter
  \<open>rnd\<close>: the result of an operation is \<open>rnd\<close> of the exact result. Exact arithmetic is
  \<open>rnd = (\<lambda>x. x)\<close>. The arithmetic of the machine is \<open>round_double\<close>, IEEE 754
  binary64 rounding to the nearest value with 53 significant bits, ties to the even
  significand; the exponent range is not bounded here (no overflow to infinity and no
  subnormal numbers). \<open>ilog2 x\<close> is the binary exponent of a positive \<open>x\<close>, the integer
  \<open>k\<close> with \<open>2^k \<le> x < 2^(k+1)\<close>. \<open>DBL_EPSILON\<close> is the machine epsilon of
  \<open>double\<close>. Negation and comparison of doubles are exact.
\<close>

definition ilog2 :: "real \<Rightarrow> int" where
  "ilog2 x = (if 1 \<le> x then int (floorlog 2 (nat \<lfloor>x\<rfloor>)) - 1
              else - int (floorlog 2 (nat (\<lceil>1 / x\<rceil> - 1))))"

definition round_half_even :: "real \<Rightarrow> int" where
  "round_half_even y =
     (let f = \<lfloor>y\<rfloor>; r = y - of_int f
      in if r < 1 / 2 then f else if 1 / 2 < r then f + 1 else if even f then f else f + 1)"

definition round_double :: "real \<Rightarrow> real" where
  "round_double x =
     (if x = 0 then 0
      else (let e = ilog2 \<bar>x\<bar> - 52
            in of_int (round_half_even (x / 2 powi e)) * 2 powi e))"


text \<open>\<open>LeafNode::size\<close> and \<open>TreeNode::size\<close>.\<close>

fun size_node :: "'e node \<Rightarrow> int" where
  "size_node (LeafNode tr es) = int (fcard es)"
| "size_node (TreeNode tr n cs) = n"

definition get_total_rate :: "'e node \<Rightarrow> real" where
  "get_total_rate t = total_rate t"

text \<open>
  \<open>SubCat()\<close>, the default-constructed sub-category that \<open>cats.resize\<close> appends. The
  type \<open>SubCat\<close> is a leaf exactly when the classifier of the sub-category is a rate.
\<close>

fun SubCat :: "('s, 'e) classifier \<Rightarrow> 'e node" where
  "SubCat (LeafRate r) = LeafNode 0 {||}"
| "SubCat (Layer cl gt) = TreeNode 0 0 []"

text \<open>\<open>TreeNode::ensure_bin\<close>: grow the vector so that index \<open>bin\<close> exists.\<close>

definition ensure_bin :: "'e node \<Rightarrow> nat \<Rightarrow> 'e node list \<Rightarrow> 'e node list" where
  "ensure_bin dflt bin cs =
     (if bin \<ge> length cs then cs @ replicate (bin + 1 - length cs) dflt else cs)"

text \<open>
  \<open>LeafNode::add\<close> and \<open>TreeNode::add\<close>. The C++ returns a \<open>bool\<close> and writes the
  out-parameter (\<open>delta\<close>, \<open>ret\<close>) only on the path that returns true; the model returns
  \<open>Some delta\<close> for true and \<open>None\<close> for false. \<open>DEBUG_CHECK\<close> is a macro of util.h,
  which is not among the sources: the flag \<open>dbg\<close> says whether the build compiles the
  checks in, and a failing check is the error \<open>Debug_check_failed\<close>. A classifier
  whose nesting differs from the tree's is a combination the C++ compiler rejects; it is
  the error \<open>Type_mismatch\<close>. \<open>total_rate += delta\<close> is a double addition, in the leaf
  and in every inner node; the delta handed upwards is the rate itself.
\<close>

primrec add :: "(real \<Rightarrow> real) \<Rightarrow> ('s, 'e) classifier \<Rightarrow> bool \<Rightarrow> 's \<Rightarrow> 'e \<Rightarrow> 'e node
    \<Rightarrow> error + (real option \<times> 'e node)" where
  "add rnd (LeafRate rate) dbg S elem t =
     (case t of
        LeafNode tr es \<Rightarrow>
          if elem |\<notin>| es then Inr (Some rate, LeafNode (rnd (tr + rate)) (finsert elem es))
          else Inr (None, LeafNode tr es)
      | TreeNode tr n cs \<Rightarrow> Inl Type_mismatch)"
| "add rnd (Layer cl gt) dbg S elem t =
     (case t of
        LeafNode tr es \<Rightarrow> Inl Type_mismatch
      | TreeNode tr n cs \<Rightarrow>
          (let bin = cl S elem;
               cs1 = ensure_bin (SubCat (gt S bin)) bin cs
           in case add rnd (gt S bin) dbg S elem (cs1 ! bin) of
                Inl e \<Rightarrow> Inl e
              | Inr (None, c) \<Rightarrow> Inr (None, TreeNode tr n (cs1[bin := c]))
              | Inr (Some delta, c) \<Rightarrow>
                  if dbg \<and> \<not> delta \<ge> 0
                  then Inl (Debug_check_failed ''Negative rate delta on 'add'!'')
                  else Inr (Some delta, TreeNode (rnd (tr + delta)) (n + 1) (cs1[bin := c]))))"

text \<open>\<open>LeafNode::remove\<close> and \<open>TreeNode::remove\<close>, in the same encoding.\<close>

primrec remove :: "(real \<Rightarrow> real) \<Rightarrow> ('s, 'e) classifier \<Rightarrow> bool \<Rightarrow> 's \<Rightarrow> 'e \<Rightarrow> 'e node
    \<Rightarrow> error + (real option \<times> 'e node)" where
  "remove rnd (LeafRate rate) dbg S elem t =
     (case t of
        LeafNode tr es \<Rightarrow>
          if elem |\<in>| es
          then Inr (Some (- rate), LeafNode (rnd (tr + (- rate))) (es |-| {|elem|}))
          else Inr (None, LeafNode tr es)
      | TreeNode tr n cs \<Rightarrow> Inl Type_mismatch)"
| "remove rnd (Layer cl gt) dbg S elem t =
     (case t of
        LeafNode tr es \<Rightarrow> Inl Type_mismatch
      | TreeNode tr n cs \<Rightarrow>
          (let bin = cl S elem;
               cs1 = ensure_bin (SubCat (gt S bin)) bin cs
           in case remove rnd (gt S bin) dbg S elem (cs1 ! bin) of
                Inl e \<Rightarrow> Inl e
              | Inr (None, c) \<Rightarrow> Inr (None, TreeNode tr n (cs1[bin := c]))
              | Inr (Some delta, c) \<Rightarrow>
                  if dbg \<and> \<not> delta \<le> 0
                  then Inl (Debug_check_failed ''Positive rate delta on 'remove'!'')
                  else Inr (Some delta, TreeNode (rnd (tr + delta)) (n - 1) (cs1[bin := c]))))"

subsection \<open>Well-nested trees and the quantities the invariants speak about\<close>

text \<open>
  The template nesting depth, which the C++ fixes in the type: a classifier of depth
  \<open>d\<close> has \<open>d\<close> layers above its rates whatever the state and the bin, and a node
  of depth \<open>d\<close> has its leaves exactly \<open>d\<close> levels down.
\<close>

primrec classifier_depth :: "nat \<Rightarrow> ('s, 'e) classifier \<Rightarrow> bool" where
  "classifier_depth 0 C = (case C of LeafRate r \<Rightarrow> True | Layer cl gt \<Rightarrow> False)"
| "classifier_depth (Suc d) C =
     (case C of LeafRate r \<Rightarrow> False | Layer cl gt \<Rightarrow> (\<forall>s b. classifier_depth d (gt s b)))"

primrec node_depth :: "nat \<Rightarrow> 'e node \<Rightarrow> bool" where
  "node_depth 0 t = (case t of LeafNode tr es \<Rightarrow> True | TreeNode tr n cs \<Rightarrow> False)"
| "node_depth (Suc d) t =
     (case t of LeafNode tr es \<Rightarrow> False | TreeNode tr n cs \<Rightarrow> (\<forall>c \<in> set cs. node_depth d c))"

text \<open>
  The member set of the leaf that the classifier chooses for an element (its classified
  bin), empty when that bin does not exist yet; and the member set found by following a
  path of bin indices from a node.
\<close>

primrec classified_bin :: "('s, 'e) classifier \<Rightarrow> 's \<Rightarrow> 'e \<Rightarrow> 'e node \<Rightarrow> 'e fset" where
  "classified_bin (LeafRate rate) S elem t =
     (case t of LeafNode tr es \<Rightarrow> es | TreeNode tr n cs \<Rightarrow> {||})"
| "classified_bin (Layer cl gt) S elem t =
     (case t of
        LeafNode tr es \<Rightarrow> {||}
      | TreeNode tr n cs \<Rightarrow>
          if cl S elem < length cs
          then classified_bin (gt S (cl S elem)) S elem (cs ! cl S elem) else {||})"

primrec elems_at :: "nat list \<Rightarrow> 'e node \<Rightarrow> 'e fset" where
  "elems_at [] t = (case t of LeafNode tr es \<Rightarrow> es | TreeNode tr n cs \<Rightarrow> {||})"
| "elems_at (b # p) t =
     (case t of
        LeafNode tr es \<Rightarrow> {||}
      | TreeNode tr n cs \<Rightarrow> if b < length cs then elems_at p (cs ! b) else {||})"








text \<open>
  A sequence of \<open>add\<close> and \<open>remove\<close> calls, each with the state the classifier reads
  at that moment; a failed debug check ends the run.
\<close>

datatype ('s, 'e) operation = Add 's 'e | Remove 's 'e

fun apply_op :: "(real \<Rightarrow> real) \<Rightarrow> ('s, 'e) classifier \<Rightarrow> bool \<Rightarrow> ('s, 'e) operation
    \<Rightarrow> 'e node \<Rightarrow> error + (real option \<times> 'e node)" where
  "apply_op rnd C dbg (Add S elem) t = add rnd C dbg S elem t"
| "apply_op rnd C dbg (Remove S elem) t = remove rnd C dbg S elem t"

fun apply_ops :: "(real \<Rightarrow> real) \<Rightarrow> ('s, 'e) classifier \<Rightarrow> bool \<Rightarrow> ('s, 'e) operation list
    \<Rightarrow> 'e node \<Rightarrow> error + 'e node" where
  "apply_ops rnd C dbg [] t = Inr t"
| "apply_ops rnd C dbg (x # xs) t =
     (case apply_op rnd C dbg x t of
        Inl e \<Rightarrow> Inl e
      | Inr (r, t') \<Rightarrow> apply_ops rnd C dbg xs t')"



text \<open>
  A concrete one-layer tree of naturals, binned by parity, with rate 2 for the even bin and
  rate 3 for the odd bin. The same binning with the rates \<open>2^53\<close> and 3, and a run that
  adds an element to each bin and removes the first again, with the tree that this run
  builds in double arithmetic. A classifier of five bins (the
  bin of an element is its tens digit) with the rates 1, \<open>2^53\<close>, 1/2, \<open>2^20\<close> and
  \<open>2^73 + 2^21\<close>, a run that leaves one member in each of the first two bins and none
  in the others, and the tree that this run builds in double arithmetic.
\<close>

definition parity_classifier :: "(unit, nat) classifier" where
  "parity_classifier = Layer (\<lambda>S e. e mod 2) (\<lambda>S b. LeafRate (if b = 0 then 2 else 3))"

definition parity_ops :: "(unit, nat) operation list" where
  "parity_ops = [Add () 1, Add () 2, Add () 4, Remove () 2, Add () 1, Remove () 7]"

definition parity_tree :: "nat node" where
  "parity_tree = TreeNode 2 1 [LeafNode 2 {|4|}]"

definition wide_classifier :: "(unit, nat) classifier" where
  "wide_classifier =
     Layer (\<lambda>S e. e mod 2) (\<lambda>S b. LeafRate (if b = 0 then 9007199254740992 else 3))"

definition wide_ops :: "(unit, nat) operation list" where
  "wide_ops = [Add () 0, Add () 1, Remove () 0]"

definition wide_tree :: "nat node" where
  "wide_tree = TreeNode 4 1 [LeafNode 0 {||}, LeafNode 3 {|1|}]"

definition five_bin_classifier :: "(unit, nat) classifier" where
  "five_bin_classifier =
     Layer (\<lambda>S e. e div 10)
           (\<lambda>S b. LeafRate (if b = 0 then 1 else if b = 1 then 9007199254740992
                            else if b = 2 then 1 / 2 else if b = 3 then 1048576
                            else 9444732965739292524544))"

definition five_bin_ops :: "(unit, nat) operation list" where
  "five_bin_ops =
     [Add () 40, Add () 30, Remove () 30, Remove () 40, Add () 0, Add () 20, Add () 10,
      Remove () 20]"

definition five_bin_tree :: "nat node" where
  "five_bin_tree =
     TreeNode 9007199256838146 2
       [LeafNode 1 {|0|}, LeafNode 9007199254740992 {|10|}, LeafNode 0 {||}, LeafNode 0 {||},
        LeafNode 0 {||}]"

subsection \<open>Choosing a sub-category at random\<close>

text \<open>
  The Mersenne twister \<open>MTwist\<close> (dependencies/mtwist.h) is not among the sources. Its
  methods are parameters of the model: each takes the generator state and returns the
  drawn value with the next state. \<open>rand_int n\<close> draws an integer in \<open>[0, n)\<close>,
  \<open>genrand_real2\<close> a real in \<open>[0, 1)\<close> and \<open>rand_real_not0\<close> a real in \<open>(0, 1]\<close>;
  no theorem below depends on these ranges.
\<close>

record 'g MTwist =
  rand_int :: "'g \<Rightarrow> int \<Rightarrow> int \<times> 'g"
  genrand_real2 :: "'g \<Rightarrow> real \<times> 'g"
  rand_real_not0 :: "'g \<Rightarrow> real \<times> 'g"

text \<open>
  \<open>TreeNode::random_uniform_bin\<close>. The loop subtracts \<open>cats.size()\<close>, the number of
  sub-categories, from the drawn number at every index, as the C++ does. Falling out of
  the loop is \<open>ASSERT(false, ...)\<close>.
\<close>

fun uniform_bin_loop :: "'e node list \<Rightarrow> int \<Rightarrow> nat list \<Rightarrow> nat option" where
  "uniform_bin_loop cs num [] = None"
| "uniform_bin_loop cs num (i # rest) =
     (let num' = num - int (length cs)
      in if num' \<le> 0 then Some i else uniform_bin_loop cs num' rest)"

fun random_uniform_bin :: "'g MTwist \<Rightarrow> 'g \<Rightarrow> 'e node \<Rightarrow> (error + nat) \<times> 'g" where
  "random_uniform_bin rng g (TreeNode tr n cs) =
     (let (num, g') = rand_int rng g (size_node (TreeNode tr n cs))
      in case uniform_bin_loop cs num [0..<length cs] of
           Some i \<Rightarrow> (Inr i, g')
         | None \<Rightarrow>
             (Inl (Assert_failed
                ''Logic error! No bin to choose from, or n_elems don't add up.''), g'))"
| "random_uniform_bin rng g (LeafNode tr es) = (Inl Type_mismatch, g)"

text \<open>
  \<open>TreeNode::random_weighted_bin\<close>. The drawn number is the double product
  \<open>genrand_real2() * total_rate\<close>; the loop subtracts the cached total of each
  sub-category from it in turn, each subtraction a double subtraction; when the loop runs
  out, the last index is returned, guarded by \<open>ASSERT(!cats.empty(), ...)\<close>.
  \<open>left_over\<close> is what the loop leaves of a number from which the totals of all the
  given sub-categories have been subtracted.
\<close>

fun weighted_bin_loop :: "(real \<Rightarrow> real) \<Rightarrow> 'e node list \<Rightarrow> real \<Rightarrow> nat list \<Rightarrow> nat option" where
  "weighted_bin_loop rnd cs num [] = None"
| "weighted_bin_loop rnd cs num (i # rest) =
     (let num' = rnd (num - get_total_rate (cs ! i))
      in if num' \<le> 0 then Some i else weighted_bin_loop rnd cs num' rest)"

fun random_weighted_bin :: "(real \<Rightarrow> real) \<Rightarrow> 'g MTwist \<Rightarrow> 'g \<Rightarrow> 'e node
    \<Rightarrow> (error + nat) \<times> 'g" where
  "random_weighted_bin rnd rng g (TreeNode tr n cs) =
     (let (u, g') = genrand_real2 rng g;
          num = rnd (u * tr)
      in case weighted_bin_loop rnd cs num [0..<length cs] of
           Some i \<Rightarrow> (Inr i, g')
         | None \<Rightarrow>
             if cs = [] then (Inl (Assert_failed ''Logic error! No bin to choose from.''), g')
             else (Inr (length cs - 1), g'))"
| "random_weighted_bin rnd rng g (LeafNode tr es) = (Inl Type_mismatch, g)"

definition left_over :: "(real \<Rightarrow> real) \<Rightarrow> real \<Rightarrow> 'e node list \<Rightarrow> real" where
  "left_over rnd num cs = foldl (\<lambda>x c. rnd (x - get_total_rate c)) num cs"

text \<open>
  \<open>LeafNode::pick_random_uniform\<close> and \<open>TreeNode::pick_random_uniform\<close>. The result
  is \<open>None\<close> where the C++ returns false and \<open>Some elem\<close> where it returns true
  with the element written. An empty leaf returns false; a non-empty leaf draws slots of
  the hash table until it hits an occupied one. The table of google's
  \<open>sparse_hash_set\<close> is not among the sources, so the outcome of that loop on a
  non-empty set is the parameter \<open>slot_pick\<close>. The recursion goes into the
  sub-category that \<open>random_uniform_bin\<close> selects, which always exists.
\<close>

function pick_random_uniform :: "'g MTwist \<Rightarrow> ('g \<Rightarrow> 'e fset \<Rightarrow> 'e \<times> 'g) \<Rightarrow> 'g \<Rightarrow> 'e node
    \<Rightarrow> (error + 'e option) \<times> 'g" where
  "pick_random_uniform M slot_pick g (LeafNode tr es) =
     (if es = {||} then (Inr None, g)
      else (let (elem, g') = slot_pick g es in (Inr (Some elem), g')))"
| "pick_random_uniform M slot_pick g (TreeNode tr n cs) =
     (if cs = [] then (Inr None, g)
      else (case random_uniform_bin M g (TreeNode tr n cs) of
              (Inl e, g') \<Rightarrow> (Inl e, g')
            | (Inr i, g') \<Rightarrow> pick_random_uniform M slot_pick g' (cs ! i)))"
  by pat_completeness auto
termination
proof -
  have loop: "uniform_bin_loop cs num js = Some i \<Longrightarrow> i \<in> set js"
    for cs :: "'e node list" and num js i
    by (induction js arbitrary: num) (auto simp: Let_def split: if_splits)
  have range: "i < length cs"
    if "(Inr i, g') = random_uniform_bin M g (TreeNode tr n cs)"
    for i g' and M :: "'g MTwist" and g tr n and cs :: "'e node list"
    using that by (auto simp: Let_def split: prod.splits option.splits dest: loop)
  have child: "size (cs ! i) < Suc (size_list size cs)" if "i < length cs"
    for i and cs :: "'e node list"
    using that by (metis less_Suc_eq_le nth_mem size_list_estimation' order_refl)
  show ?thesis
    by (relation "measure (\<lambda>(M, slot_pick, g, t). size t)")
       (auto simp del: random_uniform_bin.simps dest!: range simp: child)
qed

text \<open>
  \<open>LeafNode::pick_random_weighted\<close> (the same thing as the uniform pick) and
  \<open>TreeNode::pick_random_weighted\<close>.
\<close>

function pick_random_weighted :: "(real \<Rightarrow> real) \<Rightarrow> 'g MTwist \<Rightarrow> ('g \<Rightarrow> 'e fset \<Rightarrow> 'e \<times> 'g)
    \<Rightarrow> 'g \<Rightarrow> 'e node \<Rightarrow> (error + 'e option) \<times> 'g" where
  "pick_random_weighted rnd M slot_pick g (LeafNode tr es) =
     pick_random_uniform M slot_pick g (LeafNode tr es)"
| "pick_random_weighted rnd M slot_pick g (TreeNode tr n cs) =
     (if cs = [] then (Inr None, g)
      else (case random_weighted_bin rnd M g (TreeNode tr n cs) of
              (Inl e, g') \<Rightarrow> (Inl e, g')
            | (Inr i, g') \<Rightarrow> pick_random_weighted rnd M slot_pick g' (cs ! i)))"
  by pat_completeness auto
termination
proof -
  have loop: "weighted_bin_loop rnd cs num js = Some i \<Longrightarrow> i \<in> set js"
    for rnd and cs :: "'e node list" and num js i
    by (induction js arbitrary: num) (auto simp: Let_def split: if_splits)
  have range: "i < length cs"
    if "(Inr i, g') = random_weighted_bin rnd M g (TreeNode tr n cs)"
    for i g' rnd and M :: "'g MTwist" and g tr n and cs :: "'e node list"
    using that by (auto simp: Let_def split: prod.splits option.splits if_splits dest: loop)
  have child: "size (cs ! i) < Suc (size_list size cs)" if "i < length cs"
    for i and cs :: "'e node list"
    using that by (metis less_Suc_eq_le nth_mem size_list_estimation' order_refl)
  show ?thesis
    by (relation "measure (\<lambda>(rnd, M, slot_pick, g, t). size t)")
       (auto simp del: random_weighted_bin.simps dest!: range simp: child)
qed

text \<open>A generator that always returns the same integer and the same real.\<close>

definition fixed_draws :: "int \<Rightarrow> real \<Rightarrow> unit MTwist" where
  "fixed_draws k u =
     \<lparr>rand_int = (\<lambda>g n. (k, g)), genrand_real2 = (\<lambda>g. (u, g)), rand_real_not0 = (\<lambda>g. (u, g))\<rparr>"

text \<open>
  Concrete trees: one with a bin of one member before a bin of three members; one with a
  single bin of three members; one whose only member sits in the second bin.
\<close>

definition skewed_tree :: "nat node" where
  "skewed_tree = TreeNode 4 4 [LeafNode 1 {|0|}, LeafNode 3 {|1, 2, 3|}]"

definition single_bin_tree :: "nat node" where
  "single_bin_tree = TreeNode 3 3 [LeafNode 3 {|0, 1, 2|}]"

definition second_bin_tree :: "nat node" where
  "second_bin_tree = TreeNode 1 1 [LeafNode 0 {||}, LeafNode 1 {|7|}]"

section \<open>The analysis routine (analyzer_main.cpp, analyzer.h)\<close>

text \<open>
  The simulation state. Doubles are exact reals and the C++ \<open>int\<close> and \<open>int64\<close>
  counters are unbounded integers (no claim depends on overflow). Entity indices are
  \<open>int\<close> as in the C++, with \<open>-1\<close> for "no entity"; the preallocated entity arena
  \<open>network[i]\<close> is a total function from indices to entities. Where two structs of the
  C++ use the same field name, the fields of \<open>AnalysisStats\<close> carry the suffix
  \<open>_stat\<close>, and the time of a \<open>Retweet\<close> is \<open>retweet_time\<close>.
\<close>

definition ZEROTOL :: real where
  "ZEROTOL = 1 / 10 ^ 16"

record Retweet =
  original_tweeter :: int
  retweet_time :: real

record Entity =
  creation_time :: real
  entity :: int
  n_tweets :: int
  n_retweets :: int
  follow_set :: "int list"
  follower_set :: "int list"
  retweets :: "Retweet list"

record Network =
  entities :: "int \<Rightarrow> Entity"
  n_entities :: int

record EntityType =
  prob_add :: real
  prob_follow :: real
  entity_list :: "int list"

text \<open>
  The enumeration of follow models is declared outside the sources; the routine compares
  \<open>config.follow_model\<close> with the four constants below, and every other value takes
  none of its branches.
\<close>

datatype FollowModel =
    RANDOM_FOLLOW | PREFERENTIAL_FOLLOW | ENTITY_FOLLOW | RETWEET_FOLLOW | OTHER_FOLLOW_MODEL

record ParsedConfig =
  initial_entities :: int
  max_entities :: int
  max_time :: real
  use_random_increment :: int
  use_barabasi :: bool
  follow_model :: FollowModel

record AnalysisStats =
  prob_add_stat :: real
  prob_follow_stat :: real
  prob_tweet :: real
  prob_norm :: real
  n_steps :: int
  n_follows :: int
  n_tweets_stat :: int
  n_retweets_stat :: int
  event_rate :: real

text \<open>
  \<open>AnalysisState\<close> together with the members of \<open>Analyzer\<close> and the global signal
  counter \<open>CTRL_C_ATTEMPTS\<close>. The category groupers are the lists
  \<open>categories[i].entities\<close>; \<open>follow_set_grower\<close> is described with
  \<open>add_if_possible\<close> below.
\<close>

record 'g AnalysisState =
  config :: ParsedConfig
  follow_set_grower :: nat
  network :: Network
  tweet_ranks :: "int list list"
  follow_ranks :: "int list list"
  retweet_ranks :: "int list list"
  entity_types :: "EntityType list"
  stats :: AnalysisStats
  time :: real
  rng :: 'g
  follow_probabilities :: "real list"
  updating_follow_probabilities :: "real list"
  last_entity_ID :: "int list"
  CTRL_C_ATTEMPTS :: int

datatype SelectionType = FOLLOW_SELECT | RETWEET_SELECT | TWEET_SELECT

text \<open>
  Functions of the repository that the routine calls and that are not among the sources
  are parameters: the random number generator, \<open>CategoryGrouper::categorize\<close>,
  \<open>analyzer_select_entity\<close>, \<open>analyzer_rate_update\<close> (both receive the whole state by
  reference), the constant \<open>TIME_CAT_FREQ\<close> and the capacity of the retweet ring
  buffers.
\<close>

record 'g Externals =
  mtwist :: "'g MTwist"
  categorize :: "int list list \<Rightarrow> int \<Rightarrow> int \<Rightarrow> int list list"
  analyzer_select_entity :: "'g AnalysisState \<Rightarrow> SelectionType \<Rightarrow> int \<times> 'g AnalysisState"
  analyzer_rate_update :: "'g AnalysisState \<Rightarrow> 'g AnalysisState"
  TIME_CAT_FREQ :: real
  retweet_buffer_size :: nat

text \<open>
  Modelled from the spec: \<open>MemPoolVectorGrower::add_if_possible\<close> is declared in
  MemPoolVector.h, which is not among the sources. The spec speaks of a follow-set
  preallocation that can be exhausted, and \<open>handle_follow\<close> of running out of buffer
  room. The grower is the number of free slots left in the preallocated pool: an add
  appends the element and takes a slot while one is free, and otherwise fails and leaves
  the list as it was.
\<close>

definition add_if_possible :: "nat \<Rightarrow> int list \<Rightarrow> int \<Rightarrow> bool \<times> nat \<times> int list" where
  "add_if_possible free xs x = (if 0 < free then (True, free - 1, xs @ [x]) else (False, free, xs))"

text \<open>
  Modelled from the spec: the recent-retweet ring buffer of bounded size of an entity
  (\<open>retweets\<close>) is declared outside the sources. It is the list of its retweets, most
  recent first, cut to the configured capacity; \<open>check_recent\<close> yields the most
  recent one, if any.
\<close>

definition check_recent :: "Retweet list \<Rightarrow> Retweet option" where
  "check_recent buf = (case buf of [] \<Rightarrow> None | r # rest \<Rightarrow> Some r)"

definition retweets_add :: "nat \<Rightarrow> Retweet \<Rightarrow> Retweet list \<Rightarrow> Retweet list" where
  "retweets_add cap r buf = take cap (r # buf)"

text \<open>
  Modelled from the spec: \<open>Network::n_following\<close> and \<open>Network::follow_i\<close> are
  declared in network.h, which is not among the sources. By their names, and as the
  \<open>FollowList\<close> accessors \<open>f.size\<close> and \<open>f[i]\<close> of \<open>action_retweet\<close> do, they read
  the follow-set of the entity: the entities it is following.
\<close>

definition n_following :: "Network \<Rightarrow> int \<Rightarrow> nat" where
  "n_following net e = length (follow_set (entities net e))"

definition follow_i :: "Network \<Rightarrow> int \<Rightarrow> nat \<Rightarrow> int" where
  "follow_i net e i = follow_set (entities net e) ! i"

text \<open>
  Writing through the reference \<open>Entity& e = network[i]\<close>.
\<close>

definition set_entity :: "int \<Rightarrow> Entity \<Rightarrow> Network \<Rightarrow> Network" where
  "set_entity i e net = net\<lparr>entities := (entities net)(i := e)\<rparr>"

text \<open>
  \<open>Analyzer::handle_follow\<close>. The result of the second \<open>add_if_possible\<close> is
  stored in \<open>was_added\<close> and the function returns true whatever it is.
\<close>

definition handle_follow :: "'g AnalysisState \<Rightarrow> int \<Rightarrow> int \<Rightarrow> bool \<times> 'g AnalysisState" where
  "handle_follow s actor target =
     (let A = entities (network s) actor;
          (was_added, grower1, follow_set1) =
             add_if_possible (follow_set_grower s) (follow_set A) target;
          net1 = set_entity actor (A\<lparr>follow_set := follow_set1\<rparr>) (network s)
      in if was_added
         then (let T = entities net1 target;
                   (was_added2, grower2, follower_set2) =
                      add_if_possible grower1 (follower_set T) actor;
                   net2 = set_entity target (T\<lparr>follower_set := follower_set2\<rparr>) net1
               in (True, s\<lparr>follow_set_grower := grower2, network := net2\<rparr>))
         else (False, s\<lparr>follow_set_grower := grower1, network := net1\<rparr>))"

text \<open>
  The search loops of \<open>action_follow_entity\<close> for the preferential and the
  entity-class follow models. An index the loop lands on is taken only when its list is
  not empty; otherwise the probability is subtracted and the search goes on. The value a
  loop leaves in \<open>entity_to_follow\<close> when it runs out is the initial \<open>-1\<close>. An index
  drawn by \<open>rand_int\<close> is read with \<open>nat\<close>, the generator's contract being
  \<open>0 \<le> k < n\<close>.
\<close>

fun preferential_loop :: "'g MTwist \<Rightarrow> 'g \<Rightarrow> int list list \<Rightarrow> real list \<Rightarrow> real \<Rightarrow> nat list
    \<Rightarrow> int \<times> 'g" where
  "preferential_loop M g categories upd rand_num [] = (- 1, g)"
| "preferential_loop M g categories upd rand_num (i # rest) =
     (if rand_num - upd ! i \<le> ZEROTOL \<and> length (categories ! i) \<noteq> 0
      then (let (k, g') = rand_int M g (int (length (categories ! i)))
            in (categories ! i ! nat k, g'))
      else preferential_loop M g categories upd (rand_num - upd ! i) rest)"

fun entity_follow_loop :: "'g MTwist \<Rightarrow> 'g \<Rightarrow> EntityType list \<Rightarrow> real \<Rightarrow> nat list \<Rightarrow> int \<times> 'g" where
  "entity_follow_loop M g types rand_num [] = (- 1, g)"
| "entity_follow_loop M g types rand_num (i # rest) =
     (if rand_num \<le> prob_follow (types ! i) \<and> length (entity_list (types ! i)) \<noteq> 0
      then (let (k, g') = rand_int M g (int (length (entity_list (types ! i))))
            in (entity_list (types ! i) ! nat k, g'))
      else entity_follow_loop M g types (rand_num - prob_follow (types ! i)) rest)"

text \<open>
  \<open>Analyzer::action_follow_entity\<close>, in two parts: the choice of the entity to follow
  (everything before the final check), and the check with the insertion. In the
  preferential model the weights are divided by their sum; for a zero sum the C++ yields
  IEEE infinities or NaNs where HOL's division yields 0, and no theorem below evaluates
  that case.
\<close>

definition select_entity_to_follow :: "'g Externals \<Rightarrow> 'g AnalysisState \<Rightarrow> int \<Rightarrow> int \<Rightarrow> real
    \<Rightarrow> int \<times> 'g AnalysisState" where
  "select_entity_to_follow X s entity_id n_ents time_of_follow =
     (let e1 = entities (network s) entity_id;
          (rand_num, g1) = rand_real_not0 (mtwist X) (rng s)
      in case follow_model (config s) of
           RANDOM_FOLLOW \<Rightarrow>
             (let (k, g2) = rand_int (mtwist X) g1 n_ents in (k, s\<lparr>rng := g2\<rparr>))
         | PREFERENTIAL_FOLLOW \<Rightarrow>
             (let idx = [0..<length (follow_probabilities s)];
                  weights = map (\<lambda>i. follow_probabilities s ! i
                                       * real (length (follow_ranks s ! i))) idx;
                  sum_of_weights = sum_list weights;
                  upd = map (\<lambda>w. w / sum_of_weights) weights;
                  (k, g2) = preferential_loop (mtwist X) g1 (follow_ranks s) upd rand_num idx
              in (k, s\<lparr>rng := g2, updating_follow_probabilities := upd\<rparr>))
         | ENTITY_FOLLOW \<Rightarrow>
             (let (k, g2) = entity_follow_loop (mtwist X) g1 (entity_types s) rand_num
                              [0..<length (entity_types s)]
              in (k, s\<lparr>rng := g2\<rparr>))
         | RETWEET_FOLLOW \<Rightarrow>
             (if rand_num > 0.5
              then (case check_recent (retweets e1) of
                      Some retweet \<Rightarrow>
                        if time_of_follow - retweet_time retweet < 2880
                        then (original_tweeter retweet, s\<lparr>rng := g1\<rparr>)
                        else (- 1, s\<lparr>rng := g1\<rparr>)
                    | None \<Rightarrow> (- 1, s\<lparr>rng := g1\<rparr>))
              else (let (k, g2) = rand_int (mtwist X) g1 n_ents in (k, s\<lparr>rng := g2\<rparr>)))
         | OTHER_FOLLOW_MODEL \<Rightarrow> (- 1, s\<lparr>rng := g1\<rparr>))"

definition action_follow_entity :: "'g Externals \<Rightarrow> 'g AnalysisState \<Rightarrow> int \<Rightarrow> int \<Rightarrow> real
    \<Rightarrow> 'g AnalysisState" where
  "action_follow_entity X s entity_id n_ents time_of_follow =
     (let (entity_to_follow, s1) = select_entity_to_follow X s entity_id n_ents time_of_follow
      in if entity_id \<noteq> entity_to_follow \<and> entity_to_follow \<noteq> - 1
         then (let (added, s2) = handle_follow s1 entity_id entity_to_follow
               in if added
                  then (let target = entities (network s2) entity_to_follow
                        in s2\<lparr>follow_ranks := categorize X (follow_ranks s2) entity_to_follow
                                                (int (length (follower_set target))),
                              stats := (stats s2)\<lparr>n_follows := n_follows (stats s2) + 1\<rparr>\<rparr>)
                  else s2)
         else s1)"

text \<open>
  \<open>Analyzer::action_followback\<close>. No function of the sources calls it.
\<close>

definition action_followback :: "'g Externals \<Rightarrow> 'g AnalysisState \<Rightarrow> int \<Rightarrow> int \<Rightarrow> 'g AnalysisState" where
  "action_followback X s follower followee =
     (let (added, s2) = handle_follow s followee follower
      in if added
         then (let target = entities (network s2) follower
               in s2\<lparr>follow_ranks := categorize X (follow_ranks s2) follower
                                       (int (length (follower_set target))),
                     stats := (stats s2)\<lparr>n_follows := n_follows (stats s2) + 1\<rparr>\<rparr>)
         else s2)"

text \<open>
  \<open>Analyzer::action_create_entity\<close> with its loop over the entity types, and
  \<open>Analyzer::action_tweet\<close>.
\<close>

fun create_entity_loop :: "'g Externals \<Rightarrow> 'g AnalysisState \<Rightarrow> int \<Rightarrow> real \<Rightarrow> nat list
    \<Rightarrow> 'g AnalysisState" where
  "create_entity_loop X s index rand_num [] = s"
| "create_entity_loop X s index rand_num (et # rest) =
     (if rand_num \<le> prob_add (entity_types s ! et)
      then (let e = entities (network s) index;
                ty = entity_types s ! et
            in s\<lparr>network := set_entity index (e\<lparr>entity := int et\<rparr>) (network s),
                 entity_types := (entity_types s)
                    [et := ty\<lparr>entity_list := entity_list ty @ [index]\<rparr>],
                 follow_ranks := categorize X (follow_ranks s) index
                                   (int (length (follower_set e)))\<rparr>)
      else create_entity_loop X s index (rand_num - prob_add (entity_types s ! et)) rest)"

definition action_create_entity :: "'g Externals \<Rightarrow> 'g AnalysisState \<Rightarrow> real \<Rightarrow> int
    \<Rightarrow> 'g AnalysisState" where
  "action_create_entity X s creation_t index =
     (let e = entities (network s) index;
          s1 = s\<lparr>network := set_entity index (e\<lparr>creation_time := creation_t\<rparr>) (network s)\<rparr>;
          (rand_num, g1) = rand_real_not0 (mtwist X) (rng s1);
          s2 = create_entity_loop X (s1\<lparr>rng := g1\<rparr>) index rand_num
                 [0..<length (entity_types s1)];
          s3 = (if use_barabasi (config s2)
                then action_follow_entity X s2 index index creation_t else s2)
      in s3\<lparr>network := (network s3)\<lparr>n_entities := n_entities (network s3) + 1\<rparr>\<rparr>)"

definition action_tweet :: "'g Externals \<Rightarrow> 'g AnalysisState \<Rightarrow> int \<Rightarrow> 'g AnalysisState" where
  "action_tweet X s entity_id =
     (let e = entities (network s) entity_id;
          e' = e\<lparr>n_tweets := n_tweets e + 1\<rparr>
      in s\<lparr>network := set_entity entity_id e' (network s),
           tweet_ranks := categorize X (tweet_ranks s) entity_id (n_tweets e')\<rparr>)"

text \<open>
  \<open>Analyzer::action_retweet\<close>. The loop runs over the indices below
  \<open>network.n_following(entity)\<close> and pushes the retweet on the buffer of
  \<open>network[network.follow_i(entity, i)]\<close>.
\<close>

fun retweet_loop :: "nat \<Rightarrow> Retweet \<Rightarrow> int \<Rightarrow> Network \<Rightarrow> nat list \<Rightarrow> Network" where
  "retweet_loop cap retweet entity_id net [] = net"
| "retweet_loop cap retweet entity_id net (i # rest) =
     (let a = follow_i net entity_id i;
          audience = entities net a;
          net' = set_entity a (audience\<lparr>retweets := retweets_add cap retweet (retweets audience)\<rparr>) net
      in retweet_loop cap retweet entity_id net' rest)"

definition action_retweet :: "'g Externals \<Rightarrow> 'g AnalysisState \<Rightarrow> int \<Rightarrow> real \<Rightarrow> 'g AnalysisState" where
  "action_retweet X s entity_id time_of_retweet =
     (let retweetee = entities (network s) entity_id;
          f = follow_set retweetee;
          (rand_num, g1) = rand_real_not0 (mtwist X) (rng s);
          (entity_retweeted, g2) =
            (if rand_num < 0.5
             then (if length f \<noteq> 0
                   then (let (k, g') = rand_int (mtwist X) g1 (int (length f)) in (f ! nat k, g'))
                   else (- 1, g1))
             else (case check_recent (retweets retweetee) of
                     Some retweet \<Rightarrow>
                       if time_of_retweet - retweet_time retweet < 2880
                       then (original_tweeter retweet, g1) else (- 1, g1)
                   | None \<Rightarrow> (- 1, g1)));
          s1 = s\<lparr>rng := g2\<rparr>
      in if entity_retweeted \<noteq> - 1
         then (let n = n_following (network s1) entity_id;
                   net1 = retweet_loop (retweet_buffer_size X)
                            \<lparr>original_tweeter = entity_retweeted, retweet_time = time_of_retweet\<rparr>
                            entity_id (network s1) [0..<n];
                   r = entities net1 entity_id;
                   net2 = set_entity entity_id (r\<lparr>n_retweets := n_retweets r + 1\<rparr>) net1
               in s1\<lparr>network := net2,
                     stats := (stats s1)\<lparr>n_retweets_stat := n_retweets_stat (stats s1) + 1\<rparr>\<rparr>)
         else s1)"

text \<open>
  \<open>Analyzer::step_time\<close> and \<open>Analyzer::step_analysis\<close>. Writing the summary line to
  the output streams is left out. The second number drawn at the start of a step is not
  used by the C++ either. The last branch of the event choice prints a message and goes
  on. With a zero event rate the C++ time becomes infinite where HOL's division yields 0;
  no theorem below evaluates that case.
\<close>

definition step_time :: "'g Externals \<Rightarrow> 'g AnalysisState \<Rightarrow> int \<Rightarrow> 'g AnalysisState" where
  "step_time X s n_ents =
     (let prev_milestone = floor (time s / TIME_CAT_FREQ X);
          s1 = (if use_random_increment (config s) = 1
                then (let (u, g1) = rand_real_not0 (mtwist X) (rng s)
                      in s\<lparr>rng := g1, time := time s + - ln u / event_rate (stats s)\<rparr>)
                else s\<lparr>time := time s + 1 / event_rate (stats s)\<rparr>);
          at_milestone = (floor (time s1 / TIME_CAT_FREQ X) > prev_milestone)
      in if at_milestone then s1\<lparr>last_entity_ID := last_entity_ID s1 @ [n_ents]\<rparr> else s1)"

definition step_analysis :: "'g Externals \<Rightarrow> 'g AnalysisState \<Rightarrow> 'g AnalysisState" where
  "step_analysis X s =
     (let (u_1, g1) = rand_real_not0 (mtwist X) (rng s);
          (rand_num, g2) = rand_real_not0 (mtwist X) g1;
          s0 = s\<lparr>rng := g2\<rparr>;
          N = n_entities (network s0);
          st = stats s0;
          s1 = (if u_1 - prob_add_stat st \<le> ZEROTOL
                then action_create_entity X s0 (time s0) N
                else if u_1 - (prob_add_stat st + prob_follow_stat st) \<le> ZEROTOL
                then (let (e, s') = analyzer_select_entity X s0 FOLLOW_SELECT
                      in action_follow_entity X s' e N (time s'))
                else if u_1 - (prob_add_stat st + prob_follow_stat st + prob_tweet st) \<le> ZEROTOL
                then (let (e, s') = analyzer_select_entity X s0 TWEET_SELECT;
                          s'' = action_tweet X s' e
                      in s''\<lparr>stats := (stats s'')\<lparr>n_tweets_stat := n_tweets_stat (stats s'') + 1\<rparr>\<rparr>)
                else if u_1 - (prob_add_stat st + prob_follow_stat st + prob_tweet st
                               + prob_norm st) \<le> ZEROTOL
                then (let (e, s') = analyzer_select_entity X s0 RETWEET_SELECT
                      in action_retweet X s' e (time s'))
                else s0);
          s2 = step_time X s1 N;
          s3 = s2\<lparr>stats := (stats s2)\<lparr>n_steps := n_steps (stats s2) + 1\<rparr>\<rparr>
      in analyzer_rate_update X s3)"

text \<open>
  \<open>Analyzer::run_network_simulation\<close>: the loop may run forever, so its result is an
  option and \<open>None\<close> means that it does not return. The signal counter is a field of
  the state; the handler that raises it runs between steps as part of the parameters.
\<close>

definition loop_condition :: "'g AnalysisState \<Rightarrow> bool" where
  "loop_condition s =
     (time s < max_time (config s) \<and> n_entities (network s) < max_entities (config s)
      \<and> CTRL_C_ATTEMPTS s = 0)"

partial_function (option) run_network_simulation ::
    "'g Externals \<Rightarrow> 'g AnalysisState \<Rightarrow> 'g AnalysisState option" where
  "run_network_simulation X s =
     (if loop_condition s then run_network_simulation X (step_analysis X s) else Some s)"

section \<open>Time-dependent tweet rates (tweets.cpp)\<close>

text \<open>
  A tweet as \<open>ElementChecker::check\<close> and \<open>TweetRateDeterminer::get_rate\<close> use it.
\<close>

record Tweet =
  id_tweeter :: int
  tweet_creation_time :: real
  retweet_time_bin :: int
  retweet_next_rebin_time :: real

text \<open>
  Modelled from the spec: \<open>TimeDepRateTree\<close> is declared outside the sources. The bank
  holds the live tweets: \<open>data\<close> is the storage \<open>tree.get(id).data\<close> refers into,
  \<open>rate_of\<close> gives the reaction rate of every tweet that is in the rate tree (a tweet
  that was removed has none), and \<open>n_bins\<close> is the configured number of age bins.
  \<open>TweetReactRateVec\<close> is its only element, slot 0.
\<close>

record TimeDepRateTree =
  data :: "nat \<Rightarrow> Tweet"
  rate_of :: "nat \<rightharpoonup> real"
  n_bins :: int

text \<open>
  What \<open>TweetRateDeterminer\<close> reads from the analysis state: the follower set of an
  entity (a rate tree nested by language, distance and preference class), the
  observation values, the age thresholds of the bins (\<open>get_cat_threshold\<close>, declared
  outside the sources, hence a parameter) and whether debug checks are compiled in.
  \<open>children()\<close> of a node is the vector of its sub-categories; a leaf has none.
\<close>

record 'e TweetRateDeterminer =
  followers_of :: "int \<Rightarrow> 'e node"
  obs_values :: "real list"
  get_cat_threshold :: "int \<Rightarrow> real"
  debug_checks :: bool

fun children :: "'e node \<Rightarrow> 'e node list" where
  "children (TreeNode tr n cs) = cs"
| "children (LeafNode tr es) = []"

text \<open>
  \<open>TweetRateDeterminer::get_rate\<close>: every terminal bin of the follower set adds its
  total rate to slot 0 of the rate vector. The C++ reads \<open>obs_prob\<close> and does not use
  it.
\<close>

definition get_rate :: "'e TweetRateDeterminer \<Rightarrow> Tweet \<Rightarrow> int \<Rightarrow> error + real" where
  "get_rate D tweet bin =
     (let followers = followers_of D (id_tweeter tweet);
          pref_cats = concat (map (\<lambda>lang_cat. concat (map children (children lang_cat)))
                               (children followers));
          rates = fold (\<lambda>pref_cat acc. acc + get_total_rate pref_cat) pref_cats 0;
          n = fold (\<lambda>pref_cat acc. acc + size_node pref_cat) pref_cats 0
      in if debug_checks D \<and> n \<noteq> size_node followers
         then Inl (Debug_check_failed
                ''Amount of entities in the follower set don't match up!'')
         else Inr rates)"

text \<open>
  Modelled from the spec: \<open>tree.tree.remove(id)\<close> takes the tweet out of the bank and
  \<open>tree.tree.replace_rate(id, rates)\<close> stores its recomputed rate.
\<close>

definition tree_remove :: "nat \<Rightarrow> TimeDepRateTree \<Rightarrow> TimeDepRateTree" where
  "tree_remove ident tree = tree\<lparr>rate_of := (rate_of tree)(ident := None)\<rparr>"

definition replace_rate :: "nat \<Rightarrow> real \<Rightarrow> TimeDepRateTree \<Rightarrow> TimeDepRateTree" where
  "replace_rate ident rates tree = tree\<lparr>rate_of := (rate_of tree)(ident \<mapsto> rates)\<rparr>"

text \<open>
  \<open>TimeDepRateTree::ElementChecker::check\<close>; \<open>now\<close> is the checker's \<open>time\<close>. The
  two \<open>printf\<close> calls are left out.
\<close>

definition check :: "'e TweetRateDeterminer \<Rightarrow> real \<Rightarrow> nat \<Rightarrow> TimeDepRateTree
    \<Rightarrow> error + (bool \<times> TimeDepRateTree)" where
  "check D now ident tree =
     (let t = data tree ident
      in if now > retweet_next_rebin_time t
         then (let t1 = t\<lparr>retweet_time_bin := retweet_time_bin t + 1\<rparr>;
                   tree1 = tree\<lparr>data := (data tree)(ident := t1)\<rparr>
               in if retweet_time_bin t1 \<ge> n_bins tree1
                  then Inr (False, tree_remove ident tree1)
                  else (let t2 = t1\<lparr>retweet_next_rebin_time :=
                                       tweet_creation_time t1
                                       + get_cat_threshold D (retweet_time_bin t1)\<rparr>;
                            tree2 = tree1\<lparr>data := (data tree1)(ident := t2)\<rparr>
                        in case get_rate D t2 (retweet_time_bin t2) of
                             Inl e \<Rightarrow> Inl e
                           | Inr rates \<Rightarrow> Inr (False, replace_rate ident rates tree2)))
         else Inr (True, tree))"

section \<open>Concrete states\<close>

text \<open>
  A network of entities that follow nobody, a configuration with room for ten entities
  and a time limit of one minute, parameters that return fixed draws, select entity 0, and
  leave categories and rates alone.
\<close>

definition blank_entity :: Entity where
  "blank_entity = \<lparr>creation_time = 0, entity = 0, n_tweets = 0, n_retweets = 0,
                    follow_set = [], follower_set = [], retweets = []\<rparr>"

definition blank_network :: "int \<Rightarrow> Network" where
  "blank_network n = \<lparr>entities = (\<lambda>i. blank_entity), n_entities = n\<rparr>"

definition blank_stats :: AnalysisStats where
  "blank_stats = \<lparr>prob_add_stat = 0, prob_follow_stat = 0, prob_tweet = 0, prob_norm = 0,
                   n_steps = 0, n_follows = 0, n_tweets_stat = 0, n_retweets_stat = 0,
                   event_rate = 1\<rparr>"

definition example_config :: "FollowModel \<Rightarrow> ParsedConfig" where
  "example_config fm = \<lparr>initial_entities = 0, max_entities = 10, max_time = 1,
                         use_random_increment = 0, use_barabasi = False, follow_model = fm\<rparr>"

definition example_state :: "nat \<Rightarrow> Network \<Rightarrow> unit AnalysisState" where
  "example_state free net =
     \<lparr>config = example_config RANDOM_FOLLOW, follow_set_grower = free, network = net,
      tweet_ranks = [], follow_ranks = [], retweet_ranks = [], entity_types = [],
      stats = blank_stats, time = 0, rng = (), follow_probabilities = [],
      updating_follow_probabilities = [], last_entity_ID = [], CTRL_C_ATTEMPTS = 0\<rparr>"

definition example_externals :: "int \<Rightarrow> real \<Rightarrow> unit Externals" where
  "example_externals k u =
     \<lparr>mtwist = fixed_draws k u, categorize = (\<lambda>c i v. c),
      analyzer_select_entity = (\<lambda>s ty. (0, s)), analyzer_rate_update = (\<lambda>s. s),
      TIME_CAT_FREQ = 1, retweet_buffer_size = 5\<rparr>"

text \<open>
  Entity 0 follows entity 1, and entity 2 follows entity 0.
\<close>

definition chain_network :: Network where
  "chain_network =
     \<lparr>entities = (\<lambda>i. if i = 0 then blank_entity\<lparr>follow_set := [1], follower_set := [2]\<rparr>
                       else if i = 1 then blank_entity\<lparr>follower_set := [0]\<rparr>
                       else if i = 2 then blank_entity\<lparr>follow_set := [0]\<rparr>
                       else blank_entity),
      n_entities = 3\<rparr>"

text \<open>
  A state in which every event is a follow; a state whose network is full; a state in
  which no event class has any probability.
\<close>

definition follow_step_state :: "unit AnalysisState" where
  "follow_step_state =
     (example_state 10 (blank_network 2))\<lparr>stats := blank_stats\<lparr>prob_follow_stat := 1\<rparr>\<rparr>"

definition full_state :: "unit AnalysisState" where
  "full_state = example_state 10 (blank_network 10)"

definition idle_state :: "unit AnalysisState" where
  "idle_state = example_state 10 (blank_network 2)"

text \<open>
  A bank of three age bins whose tweets were created at time 0, are due for rebinning
  after time 5 and sit in age bin \<open>b\<close>; the tweeter has no followers.
\<close>

definition aging_determiner :: "nat TweetRateDeterminer" where
  "aging_determiner =
     \<lparr>followers_of = (\<lambda>i. TreeNode 0 0 []), obs_values = [1/2, 1/4, 1/4],
      get_cat_threshold = (\<lambda>b. 10 * real_of_int (b + 1)), debug_checks = True\<rparr>"

definition aging_tree :: "int \<Rightarrow> TimeDepRateTree" where
  "aging_tree b =
     \<lparr>data = (\<lambda>i. \<lparr>id_tweeter = 0, tweet_creation_time = 0, retweet_time_bin = b,
                     retweet_next_rebin_time = 5\<rparr>),
      rate_of = [0 \<mapsto> 1], n_bins = 3\<rparr>"

section \<open>Verification of the rate tree\<close>

subsection \<open>Rounding to double\<close>

lemma ilog2_bounds:
  assumes "0 < x"
  shows "2 powi ilog2 x \<le> x" and "x < 2 powi (ilog2 x + 1)"
proof -
  have "2 powi ilog2 x \<le> x \<and> x < 2 powi (ilog2 x + 1)"
  proof (cases "1 \<le> x")
    case True
    define n where "n = nat \<lfloor>x\<rfloor>"
    define k where "k = floorlog 2 n"
    from True have n: "0 < n" and nx: "real n \<le> x" and xn: "x < real n + 1"
      unfolding n_def by linarith+
    from floorlog_bounds[OF n, of 2] have lo: "2 ^ (k - 1) \<le> n" and hi: "n < 2 ^ k"
      unfolding k_def by auto
    from n have kpos: "0 < k" unfolding k_def by (simp add: floorlog_def)
    have il: "ilog2 x = int (k - 1)" using True kpos by (simp add: ilog2_def n_def k_def)
    have "(2::real) ^ (k - 1) \<le> real n"
      using lo by (metis of_nat_le_iff of_nat_numeral of_nat_power)
    with nx have "(2::real) ^ (k - 1) \<le> x" by linarith
    then have 1: "2 powi ilog2 x \<le> x" unfolding il by simp
    from hi have "n + 1 \<le> 2 ^ k" by simp
    then have "real (n + 1) \<le> (2::real) ^ k"
      by (metis of_nat_le_iff of_nat_numeral of_nat_power)
    then have "x < 2 ^ k" using xn by simp
    moreover have "ilog2 x + 1 = int k" using il kpos by simp
    ultimately have 2: "x < 2 powi (ilog2 x + 1)" by simp
    from 1 2 show ?thesis ..
  next
    case False
    define y where "y = 1 / x"
    define N where "N = \<lceil>y\<rceil>"
    define j where "j = floorlog 2 (nat (N - 1))"
    from False assms have y1: "1 < y" unfolding y_def by simp
    then have N2: "2 \<le> N" unfolding N_def by linarith
    have yN: "y \<le> of_int N" and Ny: "of_int N - 1 < y" unfolding N_def by linarith+
    from N2 have pos: "0 < nat (N - 1)" by simp
    from floorlog_bounds[OF pos, of 2] have lo: "2 ^ (j - 1) \<le> nat (N - 1)"
      and hi: "nat (N - 1) < 2 ^ j" unfolding j_def by auto
    from pos have jpos: "0 < j" unfolding j_def by (simp add: floorlog_def)
    have il: "ilog2 x = - int j" using False by (simp add: ilog2_def j_def N_def y_def)
    from hi have "N - 1 < 2 ^ j" using N2 by (simp add: nat_less_iff)
    then have "N \<le> 2 ^ j" by simp
    then have "(of_int N :: real) \<le> 2 ^ j" by (metis of_int_le_iff of_int_numeral of_int_power)
    with yN have "y \<le> 2 ^ j" by linarith
    then have "1 / 2 ^ j \<le> x" using assms unfolding y_def by (simp add: field_simps)
    then have 1: "2 powi ilog2 x \<le> x" unfolding il by (simp add: power_int_minus field_simps)
    from lo have "2 ^ (j - 1) \<le> N - 1" using N2 by (simp add: le_nat_iff)
    then have "(2 ^ (j - 1) :: real) \<le> of_int (N - 1)"
      by (metis of_int_le_iff of_int_numeral of_int_power)
    with Ny have "2 ^ (j - 1) < y" by (simp only: of_int_diff of_int_1)
    then have "x < 1 / 2 ^ (j - 1)" using assms unfolding y_def by (simp add: field_simps)
    moreover have "ilog2 x + 1 = - int (j - 1)" using il jpos by simp
    ultimately have 2: "x < 2 powi (ilog2 x + 1)" by (simp add: power_int_minus field_simps)
    from 1 2 show ?thesis ..
  qed
  then show "2 powi ilog2 x \<le> x" and "x < 2 powi (ilog2 x + 1)" by simp_all
qed

lemma pow2_less_cancel: "(2::real) powi a < 2 powi b \<Longrightarrow> a < b"
proof (rule ccontr)
  assume "(2::real) powi a < 2 powi b" and "\<not> a < b"
  then have "b \<le> a" by simp
  then have "(2::real) powi b \<le> 2 powi a" by (rule power_int_increasing) simp
  with \<open>(2::real) powi a < 2 powi b\<close> show False by simp
qed

lemma ilog2_unique:
  assumes "0 < x" and "2 powi k \<le> x" and "x < 2 powi (k + 1)"
  shows "ilog2 x = k"
proof (rule antisym)
  from ilog2_bounds(1)[OF assms(1)] assms(3) have "(2::real) powi ilog2 x < 2 powi (k + 1)" by simp
  then have "ilog2 x < k + 1" by (rule pow2_less_cancel)
  then show "ilog2 x \<le> k" by simp
next
  from ilog2_bounds(2)[OF assms(1)] assms(2) have "(2::real) powi k < 2 powi (ilog2 x + 1)" by simp
  then have "k < ilog2 x + 1" by (rule pow2_less_cancel)
  then show "k \<le> ilog2 x" by simp
qed

lemma round_half_even_error: "\<bar>of_int (round_half_even y) - y\<bar> \<le> 1 / 2"
  unfolding round_half_even_def Let_def by (auto split: if_splits)

lemma round_half_even_nonpos: "y \<le> 0 \<Longrightarrow> round_half_even y \<le> 0"
proof -
  assume "y \<le> 0"
  with round_half_even_error[of y] have "real_of_int (round_half_even y) \<le> 1 / 2" by linarith
  then have "real_of_int (round_half_even y) < 1" by linarith
  then show ?thesis by linarith
qed


lemma round_double_nonpos: "x \<le> 0 \<Longrightarrow> round_double x \<le> 0"
proof (cases "x = 0")
  case True
  then show ?thesis by (simp add: round_double_def)
next
  case False
  assume "x \<le> 0"
  define u :: real where "u = 2 powi (ilog2 \<bar>x\<bar> - 52)"
  have upos: "0 < u" unfolding u_def by simp
  with \<open>x \<le> 0\<close> have "x / u \<le> 0" by (simp add: divide_nonpos_pos)
  then have "round_half_even (x / u) \<le> 0" by (rule round_half_even_nonpos)
  then have "real_of_int (round_half_even (x / u)) * u \<le> 0"
    using upos by (simp add: mult_le_0_iff)
  then show ?thesis using False by (simp add: round_double_def u_def Let_def)
qed

lemma round_double_eval:
  assumes "2 powi k \<le> \<bar>x\<bar>" and "\<bar>x\<bar> < 2 powi (k + 1)"
  shows "round_double x = of_int (round_half_even (x / 2 powi (k - 52))) * 2 powi (k - 52)"
proof -
  have "0 < (2::real) powi k" by simp
  with assms(1) have pos: "0 < \<bar>x\<bar>" by linarith
  then have "x \<noteq> 0" by simp
  moreover have "ilog2 \<bar>x\<bar> = k" using pos assms by (rule ilog2_unique)
  ultimately show ?thesis by (simp add: round_double_def Let_def)
qed

lemma rd_0: "round_double 0 = 0" by (simp add: round_double_def)

lemma rd_1: "round_double 1 = 1"
  by (subst round_double_eval[where k = 0]) (simp_all add: round_half_even_def power_int_minus)

lemma rd_3: "round_double 3 = 3"
  by (subst round_double_eval[where k = 1]) (simp_all add: round_half_even_def power_int_minus)

lemma rd_big: "round_double 9007199254740992 = 9007199254740992"
  by (subst round_double_eval[where k = 53]) (simp_all add: round_half_even_def)

lemma rd_big3: "round_double 9007199254740995 = 9007199254740996"
  by (subst round_double_eval[where k = 53]) (simp_all add: round_half_even_def)

lemma rd_big1: "round_double 9007199254740993 = 9007199254740992"
  by (subst round_double_eval[where k = 53]) (simp_all add: round_half_even_def)

lemma rd_half: "round_double (7 / 2) = 7 / 2"
  by (subst round_double_eval[where k = 1]) (simp_all add: round_half_even_def power_int_minus)

subsection \<open>Growing the vector of sub-categories\<close>

lemma SubCat_depth: "classifier_depth d C \<Longrightarrow> node_depth d (SubCat C)"
  by (cases d; cases C) auto

lemma elems_at_SubCat: "elems_at p (SubCat C) = {||}"
  by (cases p; cases C) auto

lemma classified_bin_SubCat: "classified_bin C S elem (SubCat C') = {||}"
  by (cases C; cases C') auto







lemma ensure_bin_length: "bin < length (ensure_bin dflt bin cs)"
  by (simp add: ensure_bin_def)

lemma ensure_bin_nth:
  "i < length (ensure_bin dflt bin cs) \<Longrightarrow>
   ensure_bin dflt bin cs ! i = (if i < length cs then cs ! i else dflt)"
  by (auto simp: ensure_bin_def nth_append split: if_splits)

lemma ensure_bin_id: "bin < length cs \<Longrightarrow> ensure_bin dflt bin cs = cs"
  by (simp add: ensure_bin_def)

lemma all_set_update: "\<forall>x\<in>set xs. P x \<Longrightarrow> P y \<Longrightarrow> \<forall>x\<in>set (xs[i := y]). P x"
  using set_update_subset_insert[of xs i y] by auto

lemma all_set_ensure_bin:
  "\<forall>x\<in>set cs. P x \<Longrightarrow> P dflt \<Longrightarrow> \<forall>x\<in>set (ensure_bin dflt bin cs). P x"
  by (auto simp: ensure_bin_def)





subsection \<open>Failed mutations\<close>

lemma add_present:
  "elem |\<in>| classified_bin C S elem t \<Longrightarrow> add rnd C dbg S elem t = Inr (None, t)"
proof (induction C arbitrary: t)
  case (LeafRate r)
  then show ?case by (cases t) auto
next
  case (Layer cl gt)
  show ?case
  proof (cases t)
    case (LeafNode tr es)
    with Layer.prems show ?thesis by simp
  next
    case (TreeNode tr n cs)
    let ?bin = "cl S elem"
    from Layer.prems TreeNode have lt: "?bin < length cs"
      by (simp split: if_splits)
    with Layer.prems TreeNode
    have "elem |\<in>| classified_bin (gt S ?bin) S elem (cs ! ?bin)" by simp
    then have "add rnd (gt S ?bin) dbg S elem (cs ! ?bin) = Inr (None, cs ! ?bin)"
      by (rule Layer.IH[OF rangeI rangeI])
    with lt TreeNode show ?thesis
      by (simp add: ensure_bin_id)
  qed
qed

lemma remove_absent:
  "classifier_depth d C \<Longrightarrow> node_depth d t \<Longrightarrow> elem |\<notin>| classified_bin C S elem t \<Longrightarrow>
   \<exists>t'. remove rnd C dbg S elem t = Inr (None, t') \<and> total_rate t' = total_rate t \<and>
        size_node t' = size_node t \<and> node_depth d t' \<and> (\<forall>p. elems_at p t' = elems_at p t)"
proof (induction C arbitrary: t d)
  case (LeafRate r)
  then show ?case by (cases t; cases d) auto
next
  case (Layer cl gt)
  from Layer.prems(1) obtain d' where d: "d = Suc d'" and cd: "\<And>s b. classifier_depth d' (gt s b)"
    by (cases d) auto
  from Layer.prems(2) d obtain tr n cs where t: "t = TreeNode tr n cs"
    and nd: "\<And>c. c \<in> set cs \<Longrightarrow> node_depth d' c"
    by (cases t) auto
  let ?bin = "cl S elem"
  let ?dflt = "SubCat (gt S ?bin)"
  let ?cs1 = "ensure_bin ?dflt ?bin cs"
  have len: "?bin < length ?cs1" by (rule ensure_bin_length)
  have nth: "\<And>i. i < length ?cs1 \<Longrightarrow> ?cs1 ! i = (if i < length cs then cs ! i else ?dflt)"
    by (rule ensure_bin_nth)
  have nds: "\<forall>x\<in>set ?cs1. node_depth d' x"
    using nd SubCat_depth[OF cd] by (intro all_set_ensure_bin) auto
  then have nd1: "\<And>i. i < length ?cs1 \<Longrightarrow> node_depth d' (?cs1 ! i)"
    by simp
  have absent: "elem |\<notin>| classified_bin (gt S ?bin) S elem (?cs1 ! ?bin)"
    using Layer.prems(3) t len by (auto simp: nth classified_bin_SubCat split: if_splits)
  from Layer.IH[OF rangeI rangeI cd nd1[OF len] absent]
  obtain c where c: "remove rnd (gt S ?bin) dbg S elem (?cs1 ! ?bin) = Inr (None, c)"
    and cdp: "node_depth d' c" and ce: "\<And>p. elems_at p c = elems_at p (?cs1 ! ?bin)"
    by blast
  let ?t' = "TreeNode tr n (?cs1[?bin := c])"
  have r: "remove rnd (Layer cl gt) dbg S elem t = Inr (None, ?t')"
    using c t by (simp add: Let_def)
  have dep: "node_depth d ?t'"
    using d all_set_update[OF nds cdp] by simp
  have el: "elems_at p ?t' = elems_at p t" for p
  proof (cases p)
    case Nil
    then show ?thesis using t by simp
  next
    case (Cons b q)
    show ?thesis
    proof (cases "b < length ?cs1")
      case True
      then show ?thesis using Cons t ce len
        by (auto simp: nth nth_list_update elems_at_SubCat)
    next
      case False
      then have "\<not> b < length cs" by (simp add: ensure_bin_def split: if_splits)
      with False show ?thesis using Cons t by simp
    qed
  qed
  show ?case using r dep el t by simp
qed

text \<open>
  Claim C10. For a tree and a classifier of the same nesting depth, in any arithmetic
  (whatever the rounding \<open>rnd\<close>): adding an element that is already in its classified
  bin returns false and leaves the whole node as it was;
  removing an element that is not in its classified bin returns false and leaves the total
  rate, the element count and the member set at every bin path as they were (the vector of
  sub-categories may have grown by empty bins).
\<close>

theorem failed_mutation_is_noop:
  assumes "classifier_depth d C" and "node_depth d t"
  shows "(elem |\<in>| classified_bin C S elem t \<longrightarrow> add rnd C dbg S elem t = Inr (None, t)) \<and>
         (elem |\<notin>| classified_bin C S elem t \<longrightarrow>
            (\<exists>t'. remove rnd C dbg S elem t = Inr (None, t') \<and> total_rate t' = total_rate t
                  \<and> size_node t' = size_node t \<and> (\<forall>p. elems_at p t' = elems_at p t)))"
proof (intro conjI impI)
  assume "elem |\<in>| classified_bin C S elem t"
  then show "add rnd C dbg S elem t = Inr (None, t)" by (rule add_present)
next
  assume "elem |\<notin>| classified_bin C S elem t"
  from remove_absent[OF assms this, of rnd dbg]
  show "\<exists>t'. remove rnd C dbg S elem t = Inr (None, t') \<and> total_rate t' = total_rate t
                  \<and> size_node t' = size_node t \<and> (\<forall>p. elems_at p t' = elems_at p t)"
    by blast
qed

theorem failed_mutation_is_noop_witness:
  "classifier_depth (Suc 0) parity_classifier \<and> node_depth (Suc 0) parity_tree
   \<and> 4 |\<in>| classified_bin parity_classifier () 4 parity_tree
   \<and> add round_double parity_classifier True () 4 parity_tree = Inr (None, parity_tree)
   \<and> 7 |\<notin>| classified_bin parity_classifier () 7 parity_tree
   \<and> (\<exists>t'. remove round_double parity_classifier True () 7 parity_tree = Inr (None, t')
          \<and> total_rate t' = total_rate parity_tree \<and> size_node t' = size_node parity_tree
          \<and> (\<forall>p. elems_at p t' = elems_at p parity_tree))"
proof -
  have h1: "classifier_depth (Suc 0) parity_classifier" by (simp add: parity_classifier_def)
  have h2: "node_depth (Suc 0) parity_tree" by (simp add: parity_tree_def)
  have h3: "4 |\<in>| classified_bin parity_classifier () 4 parity_tree"
    by (simp add: parity_classifier_def parity_tree_def)
  have h4: "7 |\<notin>| classified_bin parity_classifier () 7 parity_tree"
    by (simp add: parity_classifier_def parity_tree_def)
  from failed_mutation_is_noop[OF h1 h2, of 4 "()" round_double True]
       failed_mutation_is_noop[OF h1 h2, of 7 "()" round_double True] h1 h2 h3 h4
  show ?thesis by simp
qed

subsection \<open>The cached totals\<close>












lemma rd_4: "round_double 4 = 4"
  by (subst round_double_eval[where k = 2]) (simp_all add: round_half_even_def power_int_minus)

lemma wide_run:
  "apply_ops round_double wide_classifier True wide_ops (TreeNode 0 0 [])
   = Inr wide_tree"
  by (simp add: wide_classifier_def wide_ops_def wide_tree_def ensure_bin_def Let_def
        rd_0 rd_3 rd_4 rd_big rd_big3)





subsection \<open>Weighted choice of a sub-category\<close>

lemma rd_half1: "round_double (1 / 2) = 1 / 2"
  by (subst round_double_eval[where k = "-1"]) (simp_all add: round_half_even_def power_int_minus)

lemma rd_p20: "round_double 1048576 = 1048576"
  by (subst round_double_eval[where k = 20]) (simp_all add: round_half_even_def power_int_minus)

lemma rd_p21: "round_double 2097152 = 2097152"
  by (subst round_double_eval[where k = 21]) (simp_all add: round_half_even_def power_int_minus)

lemma rd_p21_1: "round_double 2097153 = 2097153"
  by (subst round_double_eval[where k = 21]) (simp_all add: round_half_even_def power_int_minus)

lemma rd_p21_3h: "round_double (4194307 / 2) = 4194307 / 2"
  by (subst round_double_eval[where k = 21]) (simp_all add: round_half_even_def power_int_minus)

lemma rd_huge: "round_double 9444732965739292524544 = 9444732965739292524544"
  by (subst round_double_eval[where k = 73]) (simp_all add: round_half_even_def)

lemma rd_huge_tie: "round_double 9444732965739293573120 = 9444732965739294621696"
  by (subst round_double_eval[where k = 73]) (simp_all add: round_half_even_def)

lemma rd_root: "round_double (18014398513676291 / 2) = 9007199256838146"
  by (subst round_double_eval[where k = 53]) (simp_all add: round_half_even_def)

lemma rd_draw:
  "round_double (19342813113834071089217535 / 2147483648) = 9007199254740994"
  by (subst round_double_eval[where k = 53]) (simp_all add: round_half_even_def)

lemma replicate_5: "replicate 5 x = [x, x, x, x, x]"
  by (simp add: numeral_eq_Suc)

lemma five_bin_run:
  "apply_ops round_double five_bin_classifier True five_bin_ops (TreeNode 0 0 [])
   = Inr five_bin_tree"
  by (simp add: five_bin_classifier_def five_bin_ops_def five_bin_tree_def ensure_bin_def Let_def
        replicate_5 rd_0 rd_1 rd_half1 rd_p20 rd_p21 rd_p21_1 rd_p21_3h rd_huge rd_huge_tie
        rd_root rd_big)

lemma weighted_bin_loop_Some: "weighted_bin_loop rnd cs num is = Some i \<Longrightarrow> i \<in> set is"
  by (induction "is" arbitrary: num) (auto simp: Let_def split: if_splits)

lemma subtract_stays_nonpos:
  assumes "\<forall>x. x \<le> 0 \<longrightarrow> rnd x \<le> (0::real)"
  shows "\<forall>i \<in> set is. 0 \<le> total_rate (cs ! i) \<Longrightarrow> num \<le> 0 \<Longrightarrow>
         foldl (\<lambda>x i. rnd (x - get_total_rate (cs ! i))) num is \<le> 0"
proof (induction "is" arbitrary: num)
  case Nil
  then show ?case by simp
next
  case (Cons i rest)
  from Cons.prems have "num - get_total_rate (cs ! i) \<le> 0" by (simp add: get_total_rate_def)
  with assms have "rnd (num - get_total_rate (cs ! i)) \<le> 0" by blast
  with Cons.prems(1) have
    "foldl (\<lambda>x i. rnd (x - get_total_rate (cs ! i))) (rnd (num - get_total_rate (cs ! i))) rest \<le> 0"
    by (intro Cons.IH) auto
  then show ?case by simp
qed

lemma weighted_bin_loop_None:
  assumes "\<forall>x. x \<le> 0 \<longrightarrow> rnd x \<le> (0::real)"
  shows "\<forall>i \<in> set is. 0 \<le> total_rate (cs ! i) \<Longrightarrow>
         0 < foldl (\<lambda>x i. rnd (x - get_total_rate (cs ! i))) num is \<Longrightarrow>
         weighted_bin_loop rnd cs num is = None"
proof (induction "is" arbitrary: num)
  case Nil
  then show ?case by simp
next
  case (Cons i rest)
  let ?num' = "rnd (num - get_total_rate (cs ! i))"
  from Cons.prems(1) have nn: "\<forall>i \<in> set rest. 0 \<le> total_rate (cs ! i)" by simp
  from Cons.prems(2) have left: "0 < foldl (\<lambda>x i. rnd (x - get_total_rate (cs ! i))) ?num' rest"
    by simp
  have pos: "\<not> ?num' \<le> 0"
  proof
    assume "?num' \<le> 0"
    from subtract_stays_nonpos[OF assms nn this] left show False by simp
  qed
  from Cons.IH[OF nn left] pos show ?case by (simp add: Let_def)
qed

lemma left_over_by_index:
  "left_over rnd num cs = foldl (\<lambda>x i. rnd (x - get_total_rate (cs ! i))) num [0..<length cs]"
proof -
  have "foldl (\<lambda>x i. rnd (x - get_total_rate (cs ! i))) num [0..<length cs]
        = foldl (\<lambda>x c. rnd (x - get_total_rate c)) num (map (\<lambda>i. cs ! i) [0..<length cs])"
    by (simp add: foldl_map)
  also have "map (\<lambda>i. cs ! i) [0..<length cs] = cs" by (rule map_nth)
  finally show ?thesis by (simp add: left_over_def)
qed

lemma pick_random_weighted_no_error:
  "\<exists>r g'. pick_random_weighted rnd M slot_pick g t = (Inr r, g')"
proof (induction rnd M slot_pick g t rule: pick_random_weighted.induct)
  case (1 rnd M slot_pick g tr es)
  then show ?case by (auto simp: Let_def split: prod.splits)
next
  case (2 rnd M slot_pick g tr n cs)
  show ?case
  proof (cases "cs = []")
    case True
    then show ?thesis by simp
  next
    case False
    obtain u g1 where draw: "genrand_real2 M g = (u, g1)" by (cases "genrand_real2 M g")
    obtain i where sel: "random_weighted_bin rnd M g (TreeNode tr n cs) = (Inr i, g1)"
      using False draw by (cases "weighted_bin_loop rnd cs (rnd (u * tr)) [0..<length cs]") auto
    from "2.IH"[OF False sel[symmetric] refl] sel False show ?thesis
      by (simp del: random_weighted_bin.simps)
  qed
qed

text \<open>
  Claim C5, as stated, under double rounding: a drawn number above the sum of the totals
  of the sub-categories does not make the last one the choice. The run \<open>five_bin_ops\<close>
  adds an element to bin 4 and one to bin 3, removes both, adds one element to each of
  the bins 0, 2 and 1 and removes the one of bin 2. The root total goes \<open>2^73 + 2^21\<close>,
  \<open>2^73 + 2^22\<close> (a tie, rounded to the even significand), the same again, \<open>2^21\<close>,
  \<open>2^21 + 1\<close>, \<open>2^21 + 3/2\<close>, \<open>2^53 + 2^21 + 2\<close> and the same again, over the totals
  1, \<open>2^53\<close>, 0, 0, 0 of the bins. With the draw \<open>1 - 2^-32\<close> the drawn number is
  \<open>2^53 + 2\<close>, above the sum \<open>2^53 + 1\<close> of the totals (and above \<open>2^53\<close>, that sum
  added up in doubles). The loop subtracts 1, which rounds to \<open>2^53\<close>, then \<open>2^53\<close>,
  which leaves 0, and returns index 1, not the last index 4.
\<close>

theorem weighted_bin_stops_before_last_child:
  "apply_ops round_double five_bin_classifier True five_bin_ops (TreeNode 0 0 [])
     = Inr five_bin_tree
   \<and> map total_rate (cats five_bin_tree) = [1, 9007199254740992, 0, 0, 0]
   \<and> round_double (fst (genrand_real2 (fixed_draws 0 (1 - 1 / 2 ^ 32)) ())
                      * total_rate five_bin_tree) = 9007199254740994
   \<and> sum_list (map total_rate (cats five_bin_tree)) < 9007199254740994
   \<and> foldl (\<lambda>s c. round_double (s + total_rate c)) 0 (cats five_bin_tree) < 9007199254740994
   \<and> random_weighted_bin round_double (fixed_draws 0 (1 - 1 / 2 ^ 32)) () five_bin_tree
       = (Inr 1, ())
   \<and> length (cats five_bin_tree) - 1 = 4"
proof -
  have h1: "map total_rate (cats five_bin_tree) = [1, 9007199254740992, 0, 0, 0]"
    by (simp add: five_bin_tree_def)
  have h2: "round_double (fst (genrand_real2 (fixed_draws 0 (1 - 1 / 2 ^ 32)) ())
                      * total_rate five_bin_tree) = 9007199254740994"
    by (simp add: five_bin_tree_def fixed_draws_def rd_draw)
  have h3: "sum_list (map total_rate (cats five_bin_tree)) < 9007199254740994"
    by (simp add: five_bin_tree_def)
  have h4: "foldl (\<lambda>s c. round_double (s + total_rate c)) 0 (cats five_bin_tree)
            < 9007199254740994"
    by (simp add: five_bin_tree_def rd_1 rd_big1 rd_big)
  have h5: "random_weighted_bin round_double (fixed_draws 0 (1 - 1 / 2 ^ 32)) () five_bin_tree
       = (Inr 1, ())"
    by (simp add: five_bin_tree_def fixed_draws_def get_total_rate_def rd_draw rd_big1 rd_0)
  have h6: "length (cats five_bin_tree) - 1 = 4" by (simp add: five_bin_tree_def)
  from five_bin_run h1 h2 h3 h4 h5 h6 show ?thesis by (intro conjI)
qed

text \<open>
  Claim C5, amended. On a node with at least one sub-category, whatever the generator draws and in
  any arithmetic, \<open>random_weighted_bin\<close> returns the index of an existing sub-category
  and never fails, and the descent \<open>pick_random_weighted\<close> from the node runs into no
  assertion. When the totals of the sub-categories are non-negative, rounding sends no
  value at or below zero above zero, and the drawn number (the rounded product of the draw
  and the cached total) is still above zero after the loop has subtracted the total of
  every sub-category from it, each subtraction rounded, the index returned is the last
  one. Under exact arithmetic that premise says that the drawn number lies above the sum
  of the totals of the sub-categories.
\<close>

theorem weighted_bin_selects_child:
  assumes "cs \<noteq> []"
  shows "\<exists>i g'. random_weighted_bin rnd M g (TreeNode tr n cs) = (Inr i, g') \<and> i < length cs \<and>
           pick_random_weighted rnd M slot_pick g (TreeNode tr n cs)
             = pick_random_weighted rnd M slot_pick g' (cs ! i) \<and>
           (\<exists>r g''. pick_random_weighted rnd M slot_pick g (TreeNode tr n cs) = (Inr r, g'')) \<and>
           ((\<forall>x. x \<le> 0 \<longrightarrow> rnd x \<le> 0) \<and> (\<forall>c \<in> set cs. 0 \<le> total_rate c) \<and>
            0 < left_over rnd (rnd (fst (genrand_real2 M g) * tr)) cs
            \<longrightarrow> i = length cs - 1)"
proof -
  note desc = pick_random_weighted_no_error[of rnd M slot_pick g "TreeNode tr n cs"]
  obtain u g' where draw: "genrand_real2 M g = (u, g')" by (cases "genrand_real2 M g")
  show ?thesis
  proof (cases "weighted_bin_loop rnd cs (rnd (u * tr)) [0..<length cs]")
    case None
    with draw assms desc show ?thesis by (simp del: pick_random_weighted.simps) (simp add: assms)
  next
    case (Some i)
    then have lt: "i < length cs" using weighted_bin_loop_Some by fastforce
    have "\<not> ((\<forall>x. x \<le> 0 \<longrightarrow> rnd x \<le> 0) \<and> (\<forall>c \<in> set cs. 0 \<le> total_rate c) \<and>
            0 < left_over rnd (rnd (u * tr)) cs)"
    proof
      assume a: "(\<forall>x. x \<le> 0 \<longrightarrow> rnd x \<le> 0) \<and> (\<forall>c \<in> set cs. 0 \<le> total_rate c) \<and>
            0 < left_over rnd (rnd (u * tr)) cs"
      then have r: "\<forall>x. x \<le> 0 \<longrightarrow> rnd x \<le> 0"
        and nn: "\<forall>i \<in> set [0..<length cs]. 0 \<le> total_rate (cs ! i)"
        and l: "0 < foldl (\<lambda>x i. rnd (x - get_total_rate (cs ! i))) (rnd (u * tr)) [0..<length cs]"
        by (simp_all add: left_over_by_index)
      from weighted_bin_loop_None[OF r nn l] Some show False by simp
    qed
    with Some draw lt desc assms show ?thesis
      by (simp del: pick_random_weighted.simps) (auto simp: assms)
  qed
qed

theorem weighted_bin_selects_child_witness:
  "apply_ops round_double wide_classifier True wide_ops (TreeNode 0 0 []) = Inr wide_tree
   \<and> cats wide_tree \<noteq> []
   \<and> map total_rate (cats wide_tree) = [0, 3]
   \<and> round_double (fst (genrand_real2 (fixed_draws 0 (7 / 8)) ()) * total_rate wide_tree) = 7 / 2
   \<and> left_over round_double (7 / 2) (cats wide_tree) = 1 / 2
   \<and> random_weighted_bin round_double (fixed_draws 0 (7 / 8)) () wide_tree = (Inr 1, ())
   \<and> length (cats wide_tree) - 1 = 1"
proof -
  have ne: "[LeafNode 0 {||}, LeafNode 3 {|1::nat|}] \<noteq> []" by simp
  have r: "\<forall>x. x \<le> 0 \<longrightarrow> round_double x \<le> 0" by (simp add: round_double_nonpos)
  have l: "left_over round_double (7 / 2) [LeafNode 0 {||}, LeafNode 3 {|1::nat|}] = 1 / 2"
    by (simp add: left_over_def get_total_rate_def rd_half rd_half1)
  from weighted_bin_selects_child[OF ne, of round_double "fixed_draws 0 (7 / 8)" "()" 4 1
         "\<lambda>g es. (0, g)"] r l wide_run
  show ?thesis by (auto simp: wide_tree_def fixed_draws_def rd_half)
qed

subsection \<open>Uniform choice of a sub-category\<close>

text \<open>
  Claim C4. The claim asks for a sub-category chosen with probability proportional to its
  member count. In a node of four members whose bins hold one and three members, the four
  equally likely draws 0, 1, 2, 3 select the bins 0, 0, 0, 1: the bin with one member is
  chosen three times out of four. In a node with a single bin of three members the draw 2
  selects no bin at all and runs into the assertion. In a node whose only member sits in
  the second of two bins, the only possible draw 0 selects the empty first bin and the
  pick returns no element.
\<close>

theorem uniform_bin_ignores_member_counts:
  "size_node skewed_tree = 4
   \<and> map size_node (cats skewed_tree) = [1, 3]
   \<and> map (\<lambda>k. fst (random_uniform_bin (fixed_draws k 0) () skewed_tree)) [0, 1, 2, 3]
       = [Inr 0, Inr 0, Inr 0, Inr 1]
   \<and> size_node single_bin_tree = 3
   \<and> fst (random_uniform_bin (fixed_draws 2 0) () single_bin_tree)
       = Inl (Assert_failed ''Logic error! No bin to choose from, or n_elems don't add up.'')
   \<and> size_node second_bin_tree = 1
   \<and> fst (pick_random_uniform (fixed_draws 0 0) (\<lambda>g es. (7, g)) () second_bin_tree)
       = Inr None"
  by (simp add: skewed_tree_def single_bin_tree_def second_bin_tree_def fixed_draws_def
        fcard_finsert_if)

section \<open>Verification of the analysis routine\<close>

lemmas ex_defs = blank_entity_def blank_network_def blank_stats_def example_config_def
  example_state_def example_externals_def fixed_draws_def

subsection \<open>Follow edges\<close>

text \<open>
  Claim C2. The claim asks that b is in the follow-set of a exactly when a is in the
  follower-set of b, also when capacity runs out. With one free slot left,
  \<open>handle_follow 0 1\<close> returns true, entity 1 is in the follow-set of entity 0, and
  entity 0 is not in the follower-set of entity 1.
\<close>

theorem handle_follow_half_edge:
  "(let (added, s') = handle_follow (example_state 1 (blank_network 2)) 0 1
    in added
       \<and> follow_set (entities (network s') 0) = [1]
       \<and> follower_set (entities (network s') 1) = [])"
  by (simp add: ex_defs handle_follow_def add_if_possible_def set_entity_def Let_def)

lemma handle_follow_other_follow_sets:
  "handle_follow s actor target = (b, s') \<Longrightarrow> a \<noteq> actor \<Longrightarrow>
   follow_set (entities (network s') a) = follow_set (entities (network s) a)"
  by (auto simp: handle_follow_def add_if_possible_def set_entity_def Let_def
           split: if_splits prod.splits)

lemma select_entity_to_follow_keeps:
  "select_entity_to_follow X s e N t = (target, s1) \<Longrightarrow>
   network s1 = network s \<and> stats s1 = stats s \<and> follow_ranks s1 = follow_ranks s
   \<and> follow_set_grower s1 = follow_set_grower s \<and> config s1 = config s"
  by (auto simp: select_entity_to_follow_def Let_def
           split: prod.splits FollowModel.splits if_splits option.splits)

lemma handle_follow_exhausted:
  "follow_set_grower s = 0 \<Longrightarrow> handle_follow s actor target = (False, s)"
  by (simp add: handle_follow_def add_if_possible_def set_entity_def Let_def)

lemma action_follow_entity_only_actor_follows:
  assumes "a \<noteq> e"
  shows "follow_set (entities (network (action_follow_entity X s e N t)) a)
         = follow_set (entities (network s) a)"
proof -
  obtain target s1 where sel: "select_entity_to_follow X s e N t = (target, s1)"
    by (cases "select_entity_to_follow X s e N t")
  obtain b s2 where hf: "handle_follow s1 e target = (b, s2)"
    by (cases "handle_follow s1 e target")
  from select_entity_to_follow_keeps[OF sel] have n1: "network s1 = network s" by simp
  from handle_follow_other_follow_sets[OF hf assms] n1
  have "follow_set (entities (network s2) a) = follow_set (entities (network s) a)" by simp
  with sel hf n1 show ?thesis
    by (simp add: action_follow_entity_def)
qed

text \<open>
  Claim C6. The claim asks for a reciprocal follow after an accepted follow. Entity 0
  follows entity 1 under the random model: afterwards entity 1 follows nobody and
  \<open>n_follows\<close> is 1. (By \<open>action_follow_entity_only_actor_follows\<close> no follow action
  ever changes the follow-set of anyone but the acting entity.)
\<close>

theorem follow_synthesizes_no_followback:
  "(let s' = action_follow_entity (example_externals 1 1) (example_state 10 (blank_network 2)) 0 2 0
    in follow_set (entities (network s') 0) = [1]
       \<and> follower_set (entities (network s') 1) = [0]
       \<and> follow_set (entities (network s') 1) = []
       \<and> follower_set (entities (network s') 0) = []
       \<and> n_follows (stats s') = 1)"
  by (simp add: ex_defs action_follow_entity_def select_entity_to_follow_def handle_follow_def
        add_if_possible_def set_entity_def Let_def)

text \<open>
  Claim C9, as stated, at a self-follow: the random model draws the acting entity 0
  itself; the follow action leaves every counter of the statistics as it was, and of the
  whole step only the step counter, which every step increments, has changed.
\<close>

theorem rejected_follow_counts_nothing:
  "fst (select_entity_to_follow (example_externals 0 (1/2)) follow_step_state 0 2 0) = 0
   \<and> stats (action_follow_entity (example_externals 0 (1/2)) follow_step_state 0 2 0)
       = stats follow_step_state
   \<and> stats (step_analysis (example_externals 0 (1/2)) follow_step_state)
       = (stats follow_step_state)\<lparr>n_steps := n_steps (stats follow_step_state) + 1\<rparr>
   \<and> network (step_analysis (example_externals 0 (1/2)) follow_step_state)
       = network follow_step_state"
  by (simp add: follow_step_state_def ex_defs step_analysis_def step_time_def
        action_follow_entity_def select_entity_to_follow_def ZEROTOL_def Let_def)

text \<open>
  Claim C9, amended. When the chosen entity is the acting entity itself, or no entity
  was chosen (\<open>-1\<close>), or the follow-set pool is exhausted, the follow action returns
  normally with the state the choice left behind: the network (no edge is added), the
  statistics (no counter changes) and the follow categories are as before. A step that
  takes the follow branch with this action then goes on from that state: it advances the
  time, counts the step and updates the rates.
\<close>

theorem rejected_follow_changes_nothing:
  assumes sel: "select_entity_to_follow X s e N t = (target, s1)"
    and rej: "target = e \<or> target = - 1 \<or> follow_set_grower s1 = 0"
  shows "action_follow_entity X s e N t = s1 \<and> network s1 = network s
         \<and> stats s1 = stats s \<and> follow_ranks s1 = follow_ranks s
         \<and> (\<forall>s0 u_1 g1 r g2.
               rand_real_not0 (mtwist X) (rng s0) = (u_1, g1)
               \<and> rand_real_not0 (mtwist X) g1 = (r, g2)
               \<and> \<not> u_1 - prob_add_stat (stats s0) \<le> ZEROTOL
               \<and> u_1 - (prob_add_stat (stats s0) + prob_follow_stat (stats s0)) \<le> ZEROTOL
               \<and> analyzer_select_entity X (s0\<lparr>rng := g2\<rparr>) FOLLOW_SELECT = (e, s)
               \<and> N = n_entities (network s0) \<and> t = time s
               \<longrightarrow> step_analysis X s0
                   = analyzer_rate_update X
                       ((step_time X s1 N)
                          \<lparr>stats := (stats (step_time X s1 N))
                             \<lparr>n_steps := n_steps (stats (step_time X s1 N)) + 1\<rparr>\<rparr>))"
proof -
  from assms have act: "action_follow_entity X s e N t = s1"
    by (auto simp: action_follow_entity_def handle_follow_exhausted)
  have step: "step_analysis X s0
        = analyzer_rate_update X
            ((step_time X s1 N)
               \<lparr>stats := (stats (step_time X s1 N))
                  \<lparr>n_steps := n_steps (stats (step_time X s1 N)) + 1\<rparr>\<rparr>)"
    if "rand_real_not0 (mtwist X) (rng s0) = (u_1, g1)"
      and "rand_real_not0 (mtwist X) g1 = (r, g2)"
      and "\<not> u_1 - prob_add_stat (stats s0) \<le> ZEROTOL"
      and "u_1 - (prob_add_stat (stats s0) + prob_follow_stat (stats s0)) \<le> ZEROTOL"
      and "analyzer_select_entity X (s0\<lparr>rng := g2\<rparr>) FOLLOW_SELECT = (e, s)"
      and "N = n_entities (network s0)" and "t = time s"
    for s0 u_1 g1 r g2
    using that act by (simp add: step_analysis_def Let_def)
  from select_entity_to_follow_keeps[OF sel] act step show ?thesis by blast
qed

theorem rejected_follow_changes_nothing_witness:
  "select_entity_to_follow (example_externals 0 (1/2)) follow_step_state 0 2 0
     = (0, follow_step_state)
   \<and> action_follow_entity (example_externals 0 (1/2)) follow_step_state 0 2 0
     = follow_step_state
   \<and> step_analysis (example_externals 0 (1/2)) follow_step_state
     = follow_step_state\<lparr>time := 1, last_entity_ID := [2],
         stats := blank_stats\<lparr>prob_follow_stat := 1, n_steps := 1\<rparr>\<rparr>"
proof -
  let ?X = "example_externals 0 (1/2)"
  have sel: "select_entity_to_follow ?X follow_step_state 0 2 0 = (0, follow_step_state)"
    by (simp add: follow_step_state_def ex_defs select_entity_to_follow_def Let_def)
  have rej: "(0::int) = 0 \<or> (0::int) = - 1 \<or> follow_set_grower follow_step_state = 0"
    by simp
  have draws: "rand_real_not0 (mtwist ?X) (rng follow_step_state) = (1/2, ())"
    "rand_real_not0 (mtwist ?X) () = (1/2, ())"
    by (simp_all add: ex_defs)
  have branch: "\<not> 1/2 - prob_add_stat (stats follow_step_state) \<le> ZEROTOL"
    "1/2 - (prob_add_stat (stats follow_step_state) + prob_follow_stat (stats follow_step_state))
       \<le> ZEROTOL"
    by (simp_all add: follow_step_state_def ex_defs ZEROTOL_def)
  have pick: "analyzer_select_entity ?X (follow_step_state\<lparr>rng := ()\<rparr>) FOLLOW_SELECT
       = (0, follow_step_state)"
    by (simp add: ex_defs follow_step_state_def)
  have args: "(2::int) = n_entities (network follow_step_state)" "(0::real) = time follow_step_state"
    by (simp_all add: follow_step_state_def ex_defs)
  have time: "step_time ?X follow_step_state 2
       = follow_step_state\<lparr>time := 1, last_entity_ID := [2]\<rparr>"
    by (simp add: step_time_def follow_step_state_def ex_defs Let_def)
  from rejected_follow_changes_nothing[OF sel rej]
  have act: "action_follow_entity ?X follow_step_state 0 2 0 = follow_step_state"
    and step: "step_analysis ?X follow_step_state
       = analyzer_rate_update ?X
           ((step_time ?X follow_step_state 2)
              \<lparr>stats := (stats (step_time ?X follow_step_state 2))
                 \<lparr>n_steps := n_steps (stats (step_time ?X follow_step_state 2)) + 1\<rparr>\<rparr>)"
    using draws branch pick args by blast+
  from step have "step_analysis ?X follow_step_state
     = follow_step_state\<lparr>time := 1, last_entity_ID := [2],
         stats := blank_stats\<lparr>prob_follow_stat := 1, n_steps := 1\<rparr>\<rparr>"
    unfolding time by (simp add: follow_step_state_def ex_defs)
  with sel act show ?thesis by simp
qed

subsection \<open>Retweets\<close>

text \<open>
  Claim C7. The claim asks that exactly the followers of the reactor receive the push.
  Entity 0, which follows entity 1 and is followed by entity 2, retweets entity 1 at time
  7: its only follower, entity 2, receives nothing, and entity 1, which is not a follower
  of entity 0, receives the push.
\<close>

theorem retweet_pushes_to_followees:
  "(let s' = action_retweet (example_externals 0 (1/4)) (example_state 10 chain_network) 0 7
    in follower_set (entities (network s') 0) = [2]
       \<and> follow_set (entities (network s') 0) = [1]
       \<and> n_retweets_stat (stats s') = 1
       \<and> retweets (entities (network s') 2) = []
       \<and> retweets (entities (network s') 1) = [\<lparr>original_tweeter = 1, retweet_time = 7\<rparr>])"
  by (simp add: ex_defs chain_network_def action_retweet_def retweets_add_def n_following_def
        follow_i_def
        check_recent_def set_entity_def Let_def)

subsection \<open>The main loop\<close>

lemma run_exit_condition:
  "run_network_simulation X s = Some s' \<Longrightarrow> \<not> loop_condition s'"
proof (induction rule: run_network_simulation.raw_induct[rotated 1, consumes 1])
  case (1 run X s s')
  then show ?case by (auto split: if_splits)
qed

lemma run_stops_at_first_failure:
  "\<not> loop_condition ((step_analysis X ^^ k) s) \<Longrightarrow>
   \<exists>j\<le>k. run_network_simulation X s = Some ((step_analysis X ^^ j) s)
          \<and> (\<forall>i<j. loop_condition ((step_analysis X ^^ i) s))"
proof (induction k arbitrary: s)
  case 0
  then show ?case by (simp add: run_network_simulation.simps)
next
  case (Suc k)
  show ?case
  proof (cases "loop_condition s")
    case False
    then have "run_network_simulation X s = Some ((step_analysis X ^^ 0) s)"
      by (simp add: run_network_simulation.simps)
    then show ?thesis by (intro exI[of _ 0]) simp
  next
    case True
    from Suc.prems have "\<not> loop_condition ((step_analysis X ^^ k) (step_analysis X s))"
      by (simp add: funpow_swap1)
    from Suc.IH[OF this] obtain j where j: "j \<le> k"
      and r: "run_network_simulation X (step_analysis X s)
              = Some ((step_analysis X ^^ j) (step_analysis X s))"
      and a: "\<forall>i<j. loop_condition ((step_analysis X ^^ i) (step_analysis X s))" by blast
    have "run_network_simulation X s = Some ((step_analysis X ^^ Suc j) s)"
      using True r by (subst run_network_simulation.simps) (simp add: funpow_swap1)
    moreover have "\<forall>i<Suc j. loop_condition ((step_analysis X ^^ i) s)"
    proof (intro allI impI)
      fix i assume "i < Suc j"
      then show "loop_condition ((step_analysis X ^^ i) s)"
        using True a by (cases i) (simp_all add: funpow_swap1)
    qed
    ultimately show ?thesis using j by (intro exI[of _ "Suc j"]) simp
  qed
qed

lemma idle_step:
  "step_analysis (example_externals 0 (1/2)) idle_state
     = idle_state\<lparr>time := 1, last_entity_ID := [2], stats := blank_stats\<lparr>n_steps := 1\<rparr>\<rparr>"
  by (simp add: idle_state_def ex_defs step_analysis_def step_time_def ZEROTOL_def Let_def)

text \<open>
  Claim C8, as stated, at a full network: the entity count has reached the maximum, the
  time limit is not reached and no abort was requested, and the loop returns at once with
  the state unchanged, so no further follow, tweet or retweet is simulated.
\<close>

theorem full_network_stops_simulation:
  "n_entities (network full_state) = max_entities (config full_state)
   \<and> time full_state < max_time (config full_state)
   \<and> CTRL_C_ATTEMPTS full_state = 0
   \<and> run_network_simulation (example_externals 0 (1/2)) full_state = Some full_state"
  by (simp add: full_state_def ex_defs run_network_simulation.simps loop_condition_def)

text \<open>
  Claim C8, amended. When the loop returns, the simulated time has reached
  \<open>max_time\<close>, or the entity count has reached \<open>max_entities\<close>, or the abort counter is
  not zero; and when one of these holds after some number of steps, the loop returns, with
  the state of the first step at which one of them holds.
\<close>

theorem main_loop_exits:
  "(run_network_simulation X s = Some s' \<longrightarrow>
      time s' \<ge> max_time (config s') \<or> n_entities (network s') \<ge> max_entities (config s')
      \<or> CTRL_C_ATTEMPTS s' \<noteq> 0)
   \<and> (\<not> loop_condition ((step_analysis X ^^ k) s) \<longrightarrow>
        (\<exists>j\<le>k. run_network_simulation X s = Some ((step_analysis X ^^ j) s)
               \<and> (\<forall>i<j. loop_condition ((step_analysis X ^^ i) s))))"
proof (intro conjI impI)
  assume "run_network_simulation X s = Some s'"
  from run_exit_condition[OF this]
  show "time s' \<ge> max_time (config s') \<or> n_entities (network s') \<ge> max_entities (config s')
      \<or> CTRL_C_ATTEMPTS s' \<noteq> 0"
    by (auto simp: loop_condition_def)
next
  assume "\<not> loop_condition ((step_analysis X ^^ k) s)"
  then show "\<exists>j\<le>k. run_network_simulation X s = Some ((step_analysis X ^^ j) s)
               \<and> (\<forall>i<j. loop_condition ((step_analysis X ^^ i) s))"
    by (rule run_stops_at_first_failure)
qed

theorem main_loop_exits_witness:
  "loop_condition idle_state
   \<and> \<not> loop_condition ((step_analysis (example_externals 0 (1/2)) ^^ Suc 0) idle_state)
   \<and> run_network_simulation (example_externals 0 (1/2)) idle_state
       = Some (step_analysis (example_externals 0 (1/2)) idle_state)
   \<and> time (step_analysis (example_externals 0 (1/2)) idle_state)
       \<ge> max_time (config (step_analysis (example_externals 0 (1/2)) idle_state))"
proof -
  let ?X = "example_externals 0 (1/2)"
  have c0: "loop_condition idle_state"
    by (simp add: idle_state_def ex_defs loop_condition_def)
  have c1: "\<not> loop_condition ((step_analysis ?X ^^ Suc 0) idle_state)"
    by (simp add: idle_step) (simp add: idle_state_def ex_defs loop_condition_def)
  from main_loop_exits[of ?X idle_state idle_state "Suc 0"] c0
  have no0: "run_network_simulation ?X idle_state \<noteq> Some idle_state"
    by (auto simp: loop_condition_def)
  from main_loop_exits[of ?X idle_state idle_state "Suc 0"] c1
  obtain j where "j \<le> Suc 0"
    and "run_network_simulation ?X idle_state = Some ((step_analysis ?X ^^ j) idle_state)"
    by blast
  with no0 have run: "run_network_simulation ?X idle_state = Some (step_analysis ?X idle_state)"
    by (cases j) auto
  have "time (step_analysis ?X idle_state) \<ge> max_time (config (step_analysis ?X idle_state))"
    by (simp add: idle_step) (simp add: idle_state_def ex_defs)
  with c0 c1 run show ?thesis by simp
qed

section \<open>Verification of the tweet aging checker\<close>

text \<open>
  Claim C3, as stated, at the boundary: with three age bins, a tweet in bin 2 that is
  due for rebinning moves to index 3, which does not exceed the bin count; the checker
  removes it from the bank and does not set a new rebin time.
\<close>

theorem check_removes_at_bin_count:
  "(case check aging_determiner 10 0 (aging_tree 2) of
      Inl e \<Rightarrow> False
    | Inr (accepted, tree') \<Rightarrow>
        \<not> accepted
        \<and> retweet_time_bin (data tree' 0) = 3
        \<and> \<not> retweet_time_bin (data tree' 0) > n_bins (aging_tree 2)
        \<and> rate_of (aging_tree 2) 0 = Some 1
        \<and> rate_of tree' 0 = None
        \<and> retweet_next_rebin_time (data tree' 0) = retweet_next_rebin_time (data (aging_tree 2) 0))"
  by (simp add: check_def aging_determiner_def aging_tree_def tree_remove_def Let_def)

text \<open>
  Claim C3, amended. If the time has not exceeded the tweet's \<open>retweet_next_rebin_time\<close>
  the checker accepts and changes nothing. Otherwise every result is a rejection, the age
  bin of the tweet is incremented and no other tweet is touched; when the new index has
  reached or exceeds the bin count the tweet is removed from the bank (and the checker
  does return), otherwise its new rebin time is its creation time plus the threshold of
  the new bin and its rate is the one \<open>get_rate\<close> computes for the new bin. The only
  failure is a failed debug check inside \<open>get_rate\<close>.
\<close>

theorem check_ages_tweet:
  assumes old: "t = data tree ident"
  shows "(\<not> now > retweet_next_rebin_time t \<longrightarrow> check D now ident tree = Inr (True, tree))
       \<and> (now > retweet_next_rebin_time t \<longrightarrow>
            (\<forall>res. check D now ident tree = Inr res \<longrightarrow>
               \<not> fst res
               \<and> retweet_time_bin (data (snd res) ident) = retweet_time_bin t + 1
               \<and> (\<forall>j. j \<noteq> ident \<longrightarrow> data (snd res) j = data tree j
                                     \<and> rate_of (snd res) j = rate_of tree j)
               \<and> (if retweet_time_bin t + 1 \<ge> n_bins tree
                   then rate_of (snd res) ident = None
                   else retweet_next_rebin_time (data (snd res) ident)
                          = tweet_creation_time t + get_cat_threshold D (retweet_time_bin t + 1)
                        \<and> get_rate D (data (snd res) ident) (retweet_time_bin t + 1)
                          = Inr (the (rate_of (snd res) ident))
                        \<and> rate_of (snd res) ident \<noteq> None))
            \<and> (retweet_time_bin t + 1 \<ge> n_bins tree \<longrightarrow> (\<exists>res. check D now ident tree = Inr res))
            \<and> (\<forall>e. check D now ident tree = Inl e \<longrightarrow>
                  e = Debug_check_failed ''Amount of entities in the follower set don't match up!''))"
  unfolding old
  by (auto simp: check_def tree_remove_def replace_rate_def get_rate_def Let_def
           split: sum.splits if_splits)

theorem check_ages_tweet_witness:
  "\<not> 3 > retweet_next_rebin_time (data (aging_tree 0) 0)
   \<and> check aging_determiner 3 0 (aging_tree 0) = Inr (True, aging_tree 0)
   \<and> 10 > retweet_next_rebin_time (data (aging_tree 0) 0)
   \<and> \<not> retweet_time_bin (data (aging_tree 0) 0) + 1 \<ge> n_bins (aging_tree 0)
   \<and> (\<exists>tree'. check aging_determiner 10 0 (aging_tree 0) = Inr (False, tree')
         \<and> retweet_time_bin (data tree' 0) = 1
         \<and> retweet_next_rebin_time (data tree' 0) = 20
         \<and> rate_of tree' 0 = Some 0
         \<and> get_rate aging_determiner (data tree' 0) 1 = Inr 0)
   \<and> 10 > retweet_next_rebin_time (data (aging_tree 2) 0)
   \<and> retweet_time_bin (data (aging_tree 2) 0) + 1 \<ge> n_bins (aging_tree 2)
   \<and> (\<exists>tree'. check aging_determiner 10 0 (aging_tree 2) = Inr (False, tree')
         \<and> rate_of tree' 0 = None)"
proof -
  have a: "\<not> 3 > retweet_next_rebin_time (data (aging_tree 0) 0)"
    and b: "10 > retweet_next_rebin_time (data (aging_tree 0) 0)"
    and c: "\<not> retweet_time_bin (data (aging_tree 0) 0) + 1 \<ge> n_bins (aging_tree 0)"
    and d: "10 > retweet_next_rebin_time (data (aging_tree 2) 0)"
    and e: "retweet_time_bin (data (aging_tree 2) 0) + 1 \<ge> n_bins (aging_tree 2)"
    by (simp_all add: aging_tree_def)
  have run: "\<exists>tree'. check aging_determiner 10 0 (aging_tree 0) = Inr (False, tree')"
    by (simp add: check_def aging_determiner_def aging_tree_def get_rate_def replace_rate_def
        get_total_rate_def Let_def)
  then obtain tree' where t': "check aging_determiner 10 0 (aging_tree 0) = Inr (False, tree')" ..
  have cat: "get_cat_threshold aging_determiner 1 = 20"
    and cr: "tweet_creation_time (data (aging_tree 0) 0) = 0"
    and bin0: "retweet_time_bin (data (aging_tree 0) 0) = 0"
    by (simp_all add: aging_determiner_def aging_tree_def)
  note T0 = check_ages_tweet[where now=3 and tree="aging_tree 0" and ident=0
      and D=aging_determiner, OF refl]
  note T1 = check_ages_tweet[where now=10 and tree="aging_tree 0" and ident=0
      and D=aging_determiner, OF refl]
  note T2 = check_ages_tweet[where now=10 and tree="aging_tree 2" and ident=0
      and D=aging_determiner, OF refl]
  from T0 a have acc: "check aging_determiner 3 0 (aging_tree 0) = Inr (True, aging_tree 0)"
    by blast
  from T1 b t' c have p1: "retweet_time_bin (data tree' 0) = 1"
    and p2: "retweet_next_rebin_time (data tree' 0) = 20"
    and p3: "get_rate aging_determiner (data tree' 0) 1 = Inr (the (rate_of tree' 0))"
    and p4: "rate_of tree' 0 \<noteq> None"
    by (auto simp: cat cr bin0)
  have gr: "get_rate aging_determiner (data tree' 0) 1 = Inr 0"
    by (simp add: get_rate_def aging_determiner_def)
  with p3 p4 have p5: "rate_of tree' 0 = Some 0" by auto
  from T2 d e obtain res where r2: "check aging_determiner 10 0 (aging_tree 2) = Inr res"
    by blast
  with T2 d e have "\<not> fst res" and "rate_of (snd res) 0 = None" by auto
  with r2 have rem: "\<exists>tree'. check aging_determiner 10 0 (aging_tree 2) = Inr (False, tree')
         \<and> rate_of tree' 0 = None"
    by (cases res) auto
  from a b c d e acc t' p1 p2 p5 gr rem show ?thesis by blast
qed

end
